theory Spec2Isabelle
  imports Complex_Main "HOL-Library.AList"
begin

section \<open>Exceptions\<close>

text \<open>
  The exceptions the modelled Python code can raise. \<open>MapError\<close> is the
  \<^verbatim>\<open>Exception("MapError")\<close> of \<^verbatim>\<open>CGRread._get_reaction\<close>; the others are the
  built-in exceptions raised by failed dictionary lookups, list indexing, tuple unpacking,
  \<^verbatim>\<open>int()\<close>/\<^verbatim>\<open>float()\<close> and \<^verbatim>\<open>dict.update(None)\<close>.
\<close>

datatype error = MapError | KeyError | ValueError | TypeError | IndexError | AttributeError

section \<open>Atom-map resolution: \<^verbatim>\<open>CGRread._get_reaction\<close>, lines 86 to 109\<close>

text \<open>
  \<^verbatim>\<open>itertools.count(n)\<close> is modelled by the next number it will yield;
  \<^verbatim>\<open>next(length)\<close> returns that number and increments the state.
\<close>

definition max_default :: "int list \<Rightarrow> int" where
  \<comment> \<open>\<^verbatim>\<open>max(xs, default=0)\<close>\<close>
  "max_default xs = (case xs of [] \<Rightarrow> 0 | y # ys \<Rightarrow> fold max ys y)"

fun assign_maps :: "int \<Rightarrow> int list \<Rightarrow> int \<times> int list" where
  \<comment> \<open>\<^verbatim>\<open>[j or next(length) for j in maps[i]]\<close>, threading the counter\<close>
  "assign_maps c [] = (c, [])"
| "assign_maps c (j # js) =
     (if j \<noteq> 0 then (case assign_maps c js of (c', r) \<Rightarrow> (c', j # r))
      else (case assign_maps (c + 1) js of (c', r) \<Rightarrow> (c', c # r)))"

definition resolve_role :: "int \<Rightarrow> int list \<Rightarrow> error + (int \<times> int list)" where
  \<comment> \<open>one pass of the loop over the two roles, lines 93 to 97\<close>
  "resolve_role c ms =
     (case (if 0 \<in> set ms then assign_maps c ms else (c, ms)) of
        (c', ms') \<Rightarrow>
          if length ms' \<noteq> length (remdups ms') then Inl MapError else Inr (c', ms'))"

definition close_gap :: "int \<Rightarrow> int list \<Rightarrow> int list" where
  \<comment> \<open>\<^verbatim>\<open>[j if j < i else j - 1 for j in maps[k]]\<close>\<close>
  "close_gap i ms = map (\<lambda>j. if j < i then j else j - 1) ms"

definition resolve_maps :: "bool \<Rightarrow> int list \<Rightarrow> int list \<Rightarrow> error + (int list \<times> int list)" where
  \<comment> \<open>arguments: the remap flag, \<^verbatim>\<open>maps['substrats']\<close>, \<^verbatim>\<open>maps['products']\<close>;
      result: the two lists after line 109\<close>
  "resolve_maps remap substrats products =
     (let length0 = max (max_default products) (max_default substrats) + 1 in
      case resolve_role length0 substrats of
        Inl e \<Rightarrow> Inl e
      | Inr (length1, s1) \<Rightarrow>
          (case resolve_role length1 products of
             Inl e \<Rightarrow> Inl e
           | Inr (length2, p1) \<Rightarrow>
               if remap then
                 (let lose = rev (filter (\<lambda>i. i \<notin> set p1 \<and> i \<notin> set s1) [1..length2 - 1])
                  in Inr (fold close_gap lose s1, fold close_gap lose p1))
               else Inr (s1, p1)))"

section \<open>Python values, strings and numbers\<close>

text \<open>
  Dictionary values of mixed type (\<^verbatim>\<open>None\<close>, integers, floats, strings, tuples, lists) are
  values of one datatype; a dictionary with string keys is an association list in insertion
  order, updated with \<^const>\<open>AList.update\<close> (an existing key keeps its position, a new
  key is appended, as in Python). A character of a string is a code point below 256.

  A float is a double: a finite double is the real number it denotes, the other three are
  the infinities and not-a-number. Comparisons of doubles are exact and are defined here.
  Reading a float from a string and adding two floats round; they are not defined here but
  taken as parameters (\<open>f_float\<close> for \<^verbatim>\<open>float(s)\<close>, \<open>f_add\<close> for \<^verbatim>\<open>x + y\<close>), so that every
  theorem below holds for the arithmetic of the interpreter, whatever it rounds to.
\<close>

datatype fval = Finite real | PosInf | NegInf | NaN

record float_ops =
  f_float :: "string \<Rightarrow> error + fval"
  f_add :: "fval \<Rightarrow> fval \<Rightarrow> fval"

definition float_lt :: "fval \<Rightarrow> fval \<Rightarrow> bool" where
  \<comment> \<open>\<^verbatim>\<open>a < b\<close> on floats; every comparison with not-a-number is false\<close>
  "float_lt a b =
     (case a of
        Finite x \<Rightarrow> (case b of Finite y \<Rightarrow> x < y | PosInf \<Rightarrow> True | _ \<Rightarrow> False)
      | NegInf \<Rightarrow> (case b of Finite y \<Rightarrow> True | PosInf \<Rightarrow> True | _ \<Rightarrow> False)
      | _ \<Rightarrow> False)"

definition float_nonzero :: "fval \<Rightarrow> bool" where
  \<comment> \<open>\<^verbatim>\<open>a != 0\<close> on a float, also its truth value\<close>
  "float_nonzero a = (case a of Finite x \<Rightarrow> x \<noteq> 0 | _ \<Rightarrow> True)"

datatype pyval =
    PNone
  | PInt int
  | PFloat fval
  | PStr string
  | PTuple "pyval list"
  | PList "pyval list"

type_synonym pydict = "(string \<times> pyval) list"

definition keys :: "('k \<times> 'v) list \<Rightarrow> 'k set" where
  \<comment> \<open>the keys of a dictionary: \<^verbatim>\<open>k in d\<close> is \<open>k \<in> keys d\<close>\<close>
  "keys d = fst ` set d"

fun ebind :: "error + 'a \<Rightarrow> ('a \<Rightarrow> error + 'b) \<Rightarrow> error + 'b" where
  \<comment> \<open>sequencing of two computations that may raise\<close>
  "ebind (Inl e) f = Inl e"
| "ebind (Inr x) f = f x"

fun emap :: "('a \<Rightarrow> error + 'b) \<Rightarrow> 'a list \<Rightarrow> error + 'b list" where
  \<comment> \<open>a list comprehension whose element expression may raise\<close>
  "emap f [] = Inr []"
| "emap f (x # xs) = ebind (f x) (\<lambda>y. ebind (emap f xs) (\<lambda>ys. Inr (y # ys)))"

definition update_all :: "pydict \<Rightarrow> pydict \<Rightarrow> pydict" where
  \<comment> \<open>\<^verbatim>\<open>d.update(other)\<close>: \<open>update_all other d\<close>\<close>
  "update_all other d = fold (\<lambda>(k, v). AList.update k v) other d"

fun split_on :: "char \<Rightarrow> string \<Rightarrow> string list" where
  \<comment> \<open>\<^verbatim>\<open>s.split(c)\<close> for a one-character separator: never an empty list\<close>
  "split_on c [] = [[]]"
| "split_on c (x # xs) =
     (if x = c then [] # split_on c xs
      else (case split_on c xs of w # ws \<Rightarrow> (x # w) # ws | [] \<Rightarrow> [[x]]))"

definition is_digit :: "char \<Rightarrow> bool" where
  "is_digit c = (c \<in> set ''0123456789'')"

definition digit_val :: "char \<Rightarrow> int" where
  "digit_val c = int (of_char c) - 48"

definition digit_char :: "nat \<Rightarrow> char" where
  "digit_char n = ''0123456789'' ! n"

definition is_space :: "char \<Rightarrow> bool" where
  \<comment> \<open>the whitespace that \<^verbatim>\<open>int()\<close> skips around the digits, a character being a code point
      below 256: tab, line feed, vertical tab, form feed, carriage return and space, and
      beyond ASCII the next-line control 133 and the no-break space 160. The separators
      28 to 31 are not skipped: \<^verbatim>\<open>int('\x1c1')\<close> raises.\<close>
  "is_space c = (of_char c \<in> {9, 10, 11, 12, 13, 32, 133, 160 :: nat})"

definition strip :: "string \<Rightarrow> string" where
  \<comment> \<open>the string without that whitespace at its two ends\<close>
  "strip s = rev (dropWhile is_space (rev (dropWhile is_space s)))"

fun int_digits :: "int \<Rightarrow> string \<Rightarrow> error + int" where
  \<comment> \<open>decimal digits, single underscores allowed between two digits\<close>
  "int_digits acc [] = Inr acc"
| "int_digits acc (c # cs) =
     (if is_digit c then int_digits (10 * acc + digit_val c) cs
      else if c = CHR ''_'' \<and> cs \<noteq> [] \<and> is_digit (hd cs) then int_digits acc cs
      else Inl ValueError)"

definition unsigned_int :: "string \<Rightarrow> error + int" where
  "unsigned_int s =
     (case s of [] \<Rightarrow> Inl ValueError
      | c # cs \<Rightarrow> if is_digit c then int_digits 0 s else Inl ValueError)"

definition py_int :: "string \<Rightarrow> error + int" where
  \<comment> \<open>\<^verbatim>\<open>int(s)\<close> on an ASCII string: surrounding whitespace, an optional sign, digits\<close>
  "py_int s =
     (case strip s of [] \<Rightarrow> Inl ValueError
      | c # cs \<Rightarrow>
          if c = CHR ''-'' then ebind (unsigned_int cs) (\<lambda>n. Inr (- n))
          else if c = CHR ''+'' then unsigned_int cs
          else unsigned_int (c # cs))"

function str_nat :: "nat \<Rightarrow> string" where
  \<comment> \<open>the decimal digits of a natural number\<close>
  "str_nat n = (if n < 10 then [digit_char n] else str_nat (n div 10) @ [digit_char (n mod 10)])"
  by pat_completeness auto
termination
  by (relation "measure id") auto

declare str_nat.simps [simp del]

definition str_int :: "int \<Rightarrow> string" where
  \<comment> \<open>\<^verbatim>\<open>'%s' % i\<close> and \<^verbatim>\<open>str(i)\<close>\<close>
  "str_int i = (if i < 0 then CHR ''-'' # str_nat (nat (- i)) else str_nat (nat i))"

definition fmt_plus_d :: "int \<Rightarrow> string" where
  \<comment> \<open>\<^verbatim>\<open>'%+d' % i\<close>\<close>
  "fmt_plus_d i = (if i < 0 then CHR ''-'' # str_nat (nat (- i)) else CHR ''+'' # str_nat (nat i))"

section \<open>Record decoder: \<^verbatim>\<open>CGRread\<close>\<close>

definition bondlabels :: "string \<Rightarrow> error + pyval" where
  \<comment> \<open>the module-level dictionary \<^verbatim>\<open>bondlabels\<close>; a missing key raises\<close>
  "bondlabels s =
     (if s = ''0'' then Inr PNone
      else if s = ''1'' then Inr (PInt 1)
      else if s = ''2'' then Inr (PInt 2)
      else if s = ''3'' then Inr (PInt 3)
      else if s = ''4'' then Inr (PInt 4)
      else if s = ''9'' then Inr (PInt 9)
      else if s = ''n'' then Inr PNone
      else if s = ''s'' then Inr (PInt 9)
      else Inl KeyError)"

definition stereolabels :: "string \<Rightarrow> error + pyval" where
  \<comment> \<open>the module-level dictionary \<^verbatim>\<open>stereolabels\<close>\<close>
  "stereolabels s =
     (if s \<in> set [''e'', ''z'', ''u'', ''r'', ''s'', ''re'', ''si''] then Inr (PStr s)
      else if s = ''n'' then Inr PNone
      else Inl KeyError)"

definition marks :: "string \<Rightarrow> error + (string \<times> string \<times> string)" where
  \<comment> \<open>the class attribute \<^verbatim>\<open>__marks\<close>, line 328\<close>
  "marks name =
     (if name \<in> set [''neighbors'', ''hyb'', ''bond'']
      then Inr (''s_'' @ name, ''p_'' @ name, ''sp_'' @ name)
      else Inl KeyError)"

definition cgrkeys :: "string \<Rightarrow> error + nat" where
  \<comment> \<open>the class attribute \<^verbatim>\<open>__cgrkeys\<close>, lines 329 to 330\<close>
  "cgrkeys t =
     (if t \<in> set [''extrabond'', ''dynbond''] then Inr 2
      else if t \<in> set [''dynatom'', ''atomnotlist'', ''atomlist'', ''isotope'', ''atomhyb'',
                         ''atomneighbors'', ''dynatomhyb'', ''dynatomneighbors''] then Inr 1
      else Inl KeyError)"

definition label :: "string \<Rightarrow> string \<Rightarrow> error + pyval" where
  \<comment> \<open>the conditional expression of lines 141 to 144 and 161 to 162\<close>
  "label name s =
     (if name = ''bond'' then bondlabels s
      else if name = ''stereo'' then stereolabels s
      else if s \<noteq> ''n'' then ebind (py_int s) (\<lambda>i. Inr (if i \<noteq> 0 then PInt i else PNone))
      else Inr PNone)"

fun parsedyn_loop :: "string \<Rightarrow> string list \<Rightarrow> error + (pyval list \<times> pyval list)" where
  \<comment> \<open>the loop of lines 138 to 144 over the tokens; returns \<^verbatim>\<open>(tmp0, tmp1)\<close>\<close>
  "parsedyn_loop name [] = Inr ([], [])"
| "parsedyn_loop name (x # xs) =
     (let parts = split_on CHR ''>'' x in
      if length parts < 2 then Inl ValueError
      else if hd parts \<noteq> last parts then
        ebind (label name (hd parts)) (\<lambda>a.
        ebind (label name (last parts)) (\<lambda>b.
        ebind (parsedyn_loop name xs) (\<lambda>(tmp0, tmp1). Inr (a # tmp0, b # tmp1))))
      else parsedyn_loop name xs)"

definition pair_list :: "pyval list \<Rightarrow> pyval list \<Rightarrow> pyval" where
  \<comment> \<open>\<^verbatim>\<open>list(zip(a, b))\<close>\<close>
  "pair_list a b = PList (map (\<lambda>(x, y). PTuple [x, y]) (zip a b))"

definition parsedyn :: "string \<Rightarrow> string \<Rightarrow> error + pydict option" where
  \<comment> \<open>\<^verbatim>\<open>CGRread.__parsedyn\<close>; \<open>Inr None\<close> is the implicit \<^verbatim>\<open>return None\<close>\<close>
  "parsedyn name val =
     ebind (parsedyn_loop name (split_on CHR '','' val)) (\<lambda>(tmp0, tmp1).
     ebind (marks name) (\<lambda>(s, p, sp).
       if length tmp0 = 1 then
         Inr (Some ([(sp, PTuple [hd tmp0, hd tmp1])]
                    @ (if hd tmp0 \<noteq> PNone then [(s, hd tmp0)] else [])
                    @ (if hd tmp1 \<noteq> PNone then [(p, hd tmp1)] else [])))
       else if length tmp0 > 1 then
         (let tmp2 = zip tmp0 tmp1 in
          if length (remdups tmp2) = length tmp2
          then Inr (Some [(s, PList tmp0), (p, PList tmp1), (sp, pair_list tmp0 tmp1)])
          else Inr None)
       else Inr None))"

definition fromkeys :: "string \<times> string \<times> string \<Rightarrow> pyval \<Rightarrow> pydict" where
  \<comment> \<open>\<^verbatim>\<open>dict.fromkeys(cls.__marks[name], v)\<close>\<close>
  "fromkeys m v = (case m of (s, p, sp) \<Rightarrow> [(s, v), (p, v), (sp, v)])"

definition parselist :: "string \<Rightarrow> string \<Rightarrow> error + pydict option" where
  \<comment> \<open>\<^verbatim>\<open>CGRread.__parselist\<close>\<close>
  "parselist name val =
     ebind (emap (label name) (split_on CHR '','' val)) (\<lambda>tmp.
       if length tmp = 1 then
         (if hd tmp \<noteq> PNone then ebind (marks name) (\<lambda>m. Inr (Some (fromkeys m (hd tmp))))
          else Inr None)
       else if length (remdups tmp) = length tmp then
         ebind (marks name) (\<lambda>m. Inr (Some (fromkeys m (PList tmp))))
       else Inr None)"

fun odds :: "'a list \<Rightarrow> 'a list" and evens :: "'a list \<Rightarrow> 'a list" where
  \<comment> \<open>the slices \<^verbatim>\<open>xs[1::2]\<close> and \<^verbatim>\<open>xs[::2]\<close>\<close>
  "odds [] = []"
| "odds (x # xs) = evens xs"
| "evens [] = []"
| "evens (x # xs) = x # odds xs"

definition unpack3 :: "'a list \<Rightarrow> error + ('a \<times> 'a \<times> 'a)" where
  \<comment> \<open>unpacking into three names\<close>
  "unpack3 xs = (case xs of [a, b, c] \<Rightarrow> Inr (a, b, c) | _ \<Rightarrow> Inl ValueError)"

definition cgr_atom_dat :: "float_ops \<Rightarrow> string \<Rightarrow> int \<Rightarrow> error + pydict option" where
  \<comment> \<open>\<^verbatim>\<open>CGRread.__cgr_atom_dat(value, charge)\<close>\<close>
  "cgr_atom_dat ops val charge =
     (case val of
        [] \<Rightarrow> Inl IndexError
      | key # rest \<Rightarrow>
          if key = CHR ''c'' then
            ebind (emap py_int (split_on CHR '','' rest)) (\<lambda>diff.
              if length diff > 1 then
                (if hd diff = 0 then
                   (let tmp = map (\<lambda>x. charge + x) diff in
                    if length (remdups tmp) = length tmp
                    then Inr (Some [(''s_charge'', PList (map PInt tmp)),
                                    (''p_charge'', PList (map PInt tmp)),
                                    (''sp_charge'', PList (map PInt tmp))])
                    else Inr None)
                 else if length diff mod 2 = 1 then
                   (let s = charge # map (\<lambda>x. charge + x) (odds diff);
                        p = map (\<lambda>x. charge + x) (evens diff);
                        tmp = zip s p in
                    if length (remdups tmp) = length tmp
                    then Inr (Some [(''s_charge'', PList (map PInt s)),
                                    (''p_charge'', PList (map PInt p)),
                                    (''sp_charge'', pair_list (map PInt s) (map PInt p))])
                    else Inr None)
                 else Inr None)
              else
                (let tmp = hd diff in
                 if tmp \<noteq> 0 then
                   (let p = charge + tmp in
                    Inr (Some [(''s_charge'', PInt charge), (''p_charge'', PInt p),
                               (''sp_charge'', PTuple [PInt charge, PInt p])]))
                 else Inr None))
          else if key = CHR ''x'' then
            ebind (emap (f_float ops) (split_on CHR '','' rest)) (\<lambda>fs.
            ebind (unpack3 fs) (\<lambda>(x, y, z).
              Inr (Some [(''p_x'', PFloat x), (''p_y'', PFloat y), (''p_z'', PFloat z)])))
          else if key = CHR ''z'' then
            ebind (py_int rest) (\<lambda>i. Inr (Some [(''dz'', PInt i)]))
          else Inr None)"

text \<open>
  The value of a record is a string, or a list of strings for the two substituent-list
  types (\<^verbatim>\<open>_collect\<close>, lines 49 to 51). A string method called on a list raises
  \<open>AttributeError\<close>.
\<close>

datatype dvalue = Str string | Strs "string list"

text \<open>One extension record: the atoms it annotates, its type tag and its value.\<close>

record cgr_record =
  rec_atoms :: "int list"
  rec_type :: string
  rec_value :: dvalue

definition the_str :: "dvalue \<Rightarrow> error + string" where
  "the_str v = (case v of Str s \<Rightarrow> Inr s | Strs _ \<Rightarrow> Inl AttributeError)"

definition dvalue_items :: "dvalue \<Rightarrow> string list" where
  \<comment> \<open>iterating over the value: the elements of a list, the characters of a string\<close>
  "dvalue_items v = (case v of Str s \<Rightarrow> map (\<lambda>c. [c]) s | Strs xs \<Rightarrow> xs)"

definition dvalue_py :: "dvalue \<Rightarrow> pyval" where
  "dvalue_py v = (case v of Str s \<Rightarrow> PStr s | Strs xs \<Rightarrow> PList (map PStr xs))"

definition cgr_dat :: "string list \<Rightarrow> string \<Rightarrow> dvalue \<Rightarrow> error + pydict option" where
  \<comment> \<open>\<^verbatim>\<open>CGRread.__cgr_dat(_type, value)\<close>. The first argument is \<^verbatim>\<open>mendeleyset\<close>, the element
      symbols of the external periodic table, in some order.\<close>
  "cgr_dat mendeleyset t v =
     (if t = ''dynbond'' then ebind (the_str v) (parsedyn ''bond'')
      else if t = ''extrabond'' then ebind (the_str v) (parselist ''bond'')
      else if t = ''atomlist'' then Inr (Some [(''element'', dvalue_py v)])
      else if t = ''atomnotlist'' then
        Inr (Some [(''element'',
                    PList (map PStr (filter (\<lambda>e. e \<notin> set (dvalue_items v)) (remdups mendeleyset))))])
      else if t = ''atomhyb'' then ebind (the_str v) (parselist ''hyb'')
      else if t = ''atomneighbors'' then ebind (the_str v) (parselist ''neighbors'')
      else if t = ''dynatomhyb'' then ebind (the_str v) (parsedyn ''hyb'')
      else if t = ''dynatomneighbors'' then ebind (the_str v) (parsedyn ''neighbors'')
      else if t = ''isotope'' then
        ebind (the_str v) (\<lambda>s.
          let tmp = split_on CHR '','' s in
          if length tmp > 1 then ebind (emap py_int tmp) (\<lambda>is. Inr (Some [(''isotope'', PList (map PInt is))]))
          else ebind (py_int (hd tmp)) (\<lambda>i. Inr (Some [(''isotope'', PInt i)])))
      else Inr None)"

section \<open>Graph assembler: \<^verbatim>\<open>CGRread.__parse_molecule\<close>\<close>

text \<open>
  One atom line and one molecule block as the file readers hand them over. The metadata of
  the block is left out; the colours side channel is not modelled, the block is decoded
  with \<^verbatim>\<open>colors=None\<close>, the default of the signature.
\<close>

record atom_line =
  l_map :: int
  l_element :: string
  l_isotope :: int
  l_charge :: int
  l_mark :: string
  l_x :: fval
  l_y :: fval
  l_z :: fval

record molecule =
  m_atoms :: "atom_line list"
  m_bonds :: "(int \<times> int \<times> int \<times> int) list"
  m_CGR_DAT :: "cgr_record list"

text \<open>
  Modelled from the spec: the attributed-graph substrate behind \<^verbatim>\<open>MoleculeContainer\<close>, which
  is not part of the sources. A node dictionary in insertion order and one attribute
  dictionary per unordered pair of nodes; adding an existing node or edge updates its
  attributes, adding an edge creates the end points that are absent.
\<close>

record mgraph =
  g_node :: "(int \<times> pydict) list"
  g_edge :: "((int \<times> int) \<times> pydict) list"

definition add_node :: "int \<Rightarrow> pydict \<Rightarrow> mgraph \<Rightarrow> mgraph" where
  "add_node n attrs g =
     g\<lparr>g_node := AList.update n
          (update_all attrs (case map_of (g_node g) n of None \<Rightarrow> [] | Some d \<Rightarrow> d)) (g_node g)\<rparr>"

definition ensure_node :: "int \<Rightarrow> mgraph \<Rightarrow> mgraph" where
  "ensure_node n g = (if n \<in> keys (g_node g) then g else g\<lparr>g_node := g_node g @ [(n, [])]\<rparr>)"

definition add_edge :: "int \<Rightarrow> int \<Rightarrow> pydict \<Rightarrow> mgraph \<Rightarrow> mgraph" where
  "add_edge u v attrs g0 =
     (let g = ensure_node v (ensure_node u g0) in
      case map_of (g_edge g) (u, v) of
        Some d \<Rightarrow> g\<lparr>g_edge := AList.update (u, v) (update_all attrs d) (g_edge g)\<rparr>
      | None \<Rightarrow>
          (case map_of (g_edge g) (v, u) of
             Some d \<Rightarrow> g\<lparr>g_edge := AList.update (v, u) (update_all attrs d) (g_edge g)\<rparr>
           | None \<Rightarrow> g\<lparr>g_edge := g_edge g @ [((u, v), update_all attrs [])]\<rparr>))"

definition set_node_attr :: "int \<Rightarrow> string \<Rightarrow> pyval \<Rightarrow> mgraph \<Rightarrow> error + mgraph" where
  \<comment> \<open>\<^verbatim>\<open>g.node[n][key] = v\<close>\<close>
  "set_node_attr n key v g =
     (case map_of (g_node g) n of
        None \<Rightarrow> Inl KeyError
      | Some d \<Rightarrow> Inr (g\<lparr>g_node := AList.update n (AList.update key v d) (g_node g)\<rparr>))"

definition lookup :: "('k \<times> 'v) list \<Rightarrow> 'k \<Rightarrow> error + 'v" where
  \<comment> \<open>\<^verbatim>\<open>d[k]\<close> on a dictionary\<close>
  "lookup d k = (case map_of d k of None \<Rightarrow> Inl KeyError | Some v \<Rightarrow> Inr v)"

definition py_index :: "'a list \<Rightarrow> int \<Rightarrow> error + 'a" where
  \<comment> \<open>\<^verbatim>\<open>xs[i]\<close> on a list; \<open>-1\<close> is the last position, \<open>- len(xs)\<close> the first\<close>
  "py_index xs i =
     (if 0 \<le> i \<and> i < int (length xs) then Inr (xs ! nat i)
      else if i < 0 \<and> - i \<le> int (length xs) then Inr (xs ! nat (int (length xs) + i))
      else Inl IndexError)"

fun efold :: "('a \<Rightarrow> 's \<Rightarrow> error + 's) \<Rightarrow> 'a list \<Rightarrow> 's \<Rightarrow> error + 's" where
  \<comment> \<open>a \<^verbatim>\<open>for\<close> loop whose body may raise\<close>
  "efold f [] s = Inr s"
| "efold f (x # xs) s = ebind (f x s) (efold f xs)"

type_synonym atom_table = "(int \<times> pydict) list"
type_synonym bond_table = "(int \<times> (int \<times> pydict) list) list"

definition setdefault_update :: "int \<Rightarrow> pydict \<Rightarrow> atom_table \<Rightarrow> atom_table" where
  \<comment> \<open>\<^verbatim>\<open>d.setdefault(k, {}).update(val)\<close>\<close>
  "setdefault_update k val d =
     AList.update k (update_all val (case map_of d k of None \<Rightarrow> [] | Some x \<Rightarrow> x)) d"

definition setdefault_set :: "int \<Rightarrow> int \<Rightarrow> pydict \<Rightarrow> bond_table \<Rightarrow> bond_table" where
  \<comment> \<open>\<^verbatim>\<open>d.setdefault(a1, {})[a2] = val\<close>\<close>
  "setdefault_set a1 a2 val d =
     AList.update a1 (AList.update a2 val (case map_of d a1 of None \<Rightarrow> [] | Some x \<Rightarrow> x)) d"

definition dynatom_value :: "float_ops \<Rightarrow> dvalue \<Rightarrow> int \<Rightarrow> error + pydict option" where
  \<comment> \<open>\<^verbatim>\<open>cls.__cgr_atom_dat(k['value'], charge)\<close>; on a list value the first element is the key
      and the slice of the list has no \<^verbatim>\<open>split\<close>\<close>
  "dynatom_value ops v charge =
     (case v of
        Str s \<Rightarrow> cgr_atom_dat ops s charge
      | Strs xs \<Rightarrow>
          (case xs of [] \<Rightarrow> Inl IndexError
           | key # _ \<Rightarrow> if key \<in> set [''c'', ''x'', ''z''] then Inl AttributeError else Inr None))"

definition cgr_dat_step ::
  "float_ops \<Rightarrow> string list \<Rightarrow> atom_line list \<Rightarrow> cgr_record \<Rightarrow> atom_table \<times> bond_table
     \<Rightarrow> error + (atom_table \<times> bond_table)" where
  \<comment> \<open>the body of the loop of lines 257 to 269; \<^verbatim>\<open>dict.update(None)\<close> raises \<open>TypeError\<close>\<close>
  "cgr_dat_step ops mendeleyset atoms k st =
     (case st of (cgr_dat_atom, cgr_dat_bond) \<Rightarrow>
      if rec_type k = ''dynatom'' then
        ebind (py_index (rec_atoms k) 0) (\<lambda>a.
        ebind (py_index atoms (a - 1)) (\<lambda>l.
        ebind (dynatom_value ops (rec_value k) (l_charge l)) (\<lambda>val.
          case val of
            None \<Rightarrow> Inl TypeError
          | Some d \<Rightarrow> Inr (setdefault_update a d cgr_dat_atom, cgr_dat_bond))))
      else
        ebind (cgr_dat mendeleyset (rec_type k) (rec_value k)) (\<lambda>val.
          case val of
            None \<Rightarrow> Inr st
          | Some d \<Rightarrow>
              if d = [] then Inr st
              else
                ebind (cgrkeys (rec_type k)) (\<lambda>n.
                  if n = 2 then
                    (case rec_atoms k of
                       [a1, a2] \<Rightarrow>
                         Inr (cgr_dat_atom,
                              setdefault_set a2 a1 d (setdefault_set a1 a2 d cgr_dat_bond))
                     | _ \<Rightarrow> Inl ValueError)
                  else
                    ebind (py_index (rec_atoms k) 0) (\<lambda>a.
                      Inr (setdefault_update a d cgr_dat_atom, cgr_dat_bond)))))"

text \<open>
  The three product coordinates of an atom-table entry are floats: line 193 is the only
  place that stores them, from \<^verbatim>\<open>float(x)\<close>. The two operations below therefore take a float
  where the dictionary holds one; on any other value they raise, which does not happen.
\<close>

definition add_float :: "float_ops \<Rightarrow> pyval \<Rightarrow> fval \<Rightarrow> error + pyval" where
  \<comment> \<open>\<^verbatim>\<open>v + x\<close> for a float \<open>x\<close>, as in \<^verbatim>\<open>atom_dat['p_z'] += l['z']\<close>\<close>
  "add_float ops v x = (case v of PFloat a \<Rightarrow> Inr (PFloat (f_add ops a x)) | _ \<Rightarrow> Inl TypeError)"

definition below :: "pyval \<Rightarrow> fval \<Rightarrow> error + bool" where
  \<comment> \<open>\<^verbatim>\<open>v < x\<close> for a float \<open>x\<close>\<close>
  "below v x = (case v of PFloat a \<Rightarrow> Inr (float_lt a x) | _ \<Rightarrow> Inl TypeError)"

definition tuple_less :: "real \<times> int \<Rightarrow> real \<times> int \<Rightarrow> bool" where
  \<comment> \<open>the order of Python tuples\<close>
  "tuple_less a b = (fst a < fst b \<or> (fst a = fst b \<and> snd a < snd b))"

definition py_max :: "(real \<times> int) list \<Rightarrow> error + (real \<times> int)" where
  \<comment> \<open>\<^verbatim>\<open>max(...)\<close>: the first largest item; an empty sequence raises\<close>
  "py_max xs =
     (case xs of [] \<Rightarrow> Inl ValueError
      | y # ys \<Rightarrow> Inr (fold (\<lambda>x m. if tuple_less m x then x else m) ys y))"

definition legacy_isotope :: "(string \<Rightarrow> (int \<times> real) list option) \<Rightarrow> atom_line \<Rightarrow> error + int" where
  \<comment> \<open>lines 298 to 299. The first argument is the external periodic table: for an element
      symbol its isotopes as (mass number, abundance); an unknown symbol raises.\<close>
  "legacy_isotope table l =
     (case table (l_element l) of
        None \<Rightarrow> Inl ValueError
      | Some isotopes \<Rightarrow>
          ebind (py_max (map (\<lambda>(x, abundance). (abundance, x)) isotopes)) (\<lambda>m.
            Inr (snd m + l_isotope l)))"

record asm_state =
  graph :: mgraph
  mdl_s_stereo :: bool
  mdl_p_stereo :: bool
  atom_dz :: "(int \<times> pyval) list"

definition merge_atom_dat :: "float_ops \<Rightarrow> atom_line \<Rightarrow> pydict \<Rightarrow> error + pydict" where
  \<comment> \<open>lines 276 to 283: the charge defaults and the product coordinates of \<^verbatim>\<open>atom_dat\<close>\<close>
  "merge_atom_dat ops l dat0 =
     (let dat1 = (if ''sp_charge'' \<in> keys dat0 then dat0
                  else update_all [(''s_charge'', PInt (l_charge l)),
                                   (''p_charge'', PInt (l_charge l)),
                                   (''sp_charge'', PInt (l_charge l))] dat0)
      in if ''p_x'' \<in> keys dat1 then
           ebind (lookup dat1 ''p_x'') (\<lambda>px. ebind (add_float ops px (l_x l)) (\<lambda>px'.
           ebind (lookup dat1 ''p_y'') (\<lambda>py. ebind (add_float ops py (l_y l)) (\<lambda>py'.
           ebind (lookup dat1 ''p_z'') (\<lambda>pz. ebind (add_float ops pz (l_z l)) (\<lambda>pz'.
             Inr (AList.update ''p_z'' pz'
                   (AList.update ''p_y'' py' (AList.update ''p_x'' px' dat1)))))))))
         else Inr (update_all [(''p_x'', PFloat (l_x l)), (''p_y'', PFloat (l_y l)),
                               (''p_z'', PFloat (l_z l))] dat1))"

definition add_atom_node ::
  "float_ops \<Rightarrow> atom_table \<Rightarrow> int \<Rightarrow> int \<times> atom_line \<Rightarrow> asm_state \<Rightarrow> error + asm_state" where
  \<comment> \<open>lines 274 to 293: the node of the atom \<open>l\<close> at position \<open>k\<close> is added as \<open>atom_map\<close>. The
      literal \<^verbatim>\<open>.0001\<close> is the double 7378697629483821 / 2^66.\<close>
  "add_atom_node ops cgr_dat_atom atom_map kl st =
     (case kl of (k, l) \<Rightarrow>
      case map_of cgr_dat_atom k of
        Some dat0 \<Rightarrow>
          ebind (merge_atom_dat ops l dat0) (\<lambda>dat2.
            let dz' = (case map_of dat2 ''dz'' of
                         Some dz \<Rightarrow> AList.update atom_map dz (atom_dz st)
                       | None \<Rightarrow> atom_dz st);
                dat3 = AList.delete ''dz'' dat2;
                g' = add_node atom_map
                       ([(''mark'', PStr (l_mark l)), (''s_x'', PFloat (l_x l)),
                         (''s_y'', PFloat (l_y l)), (''s_z'', PFloat (l_z l))] @ dat3) (graph st)
            in ebind (lookup dat3 ''p_z'') (\<lambda>pz.
               ebind (below pz (Finite (7378697629483821 / 2 ^ 66))) (\<lambda>b.
                 Inr (st\<lparr>graph := g', atom_dz := dz',
                          mdl_p_stereo := (if b then False else mdl_p_stereo st)\<rparr>))))
      | None \<Rightarrow>
          Inr (st\<lparr>graph := add_node atom_map
                 [(''mark'', PStr (l_mark l)), (''s_x'', PFloat (l_x l)), (''s_y'', PFloat (l_y l)),
                  (''s_z'', PFloat (l_z l)), (''p_x'', PFloat (l_x l)), (''p_y'', PFloat (l_y l)),
                  (''p_z'', PFloat (l_z l)), (''s_charge'', PInt (l_charge l)),
                  (''p_charge'', PInt (l_charge l)), (''sp_charge'', PInt (l_charge l))]
                 (graph st)\<rparr>))"

definition set_legacy_element :: "int \<Rightarrow> atom_line \<Rightarrow> mgraph \<Rightarrow> error + mgraph" where
  \<comment> \<open>lines 295 to 296\<close>
  "set_legacy_element atom_map l g =
     ebind (lookup (g_node g) atom_map) (\<lambda>nd.
       if ''element'' \<notin> keys nd \<and> l_element l \<notin> set [''A'', ''*'']
       then set_node_attr atom_map ''element'' (PStr (l_element l)) g
       else Inr g)"

definition set_legacy_isotope ::
  "(string \<Rightarrow> (int \<times> real) list option) \<Rightarrow> int \<Rightarrow> atom_line \<Rightarrow> mgraph \<Rightarrow> error + mgraph" where
  \<comment> \<open>lines 297 to 299\<close>
  "set_legacy_isotope table atom_map l g =
     ebind (lookup (g_node g) atom_map) (\<lambda>nd.
       if ''isotope'' \<notin> keys nd \<and> l_isotope l \<noteq> 0
       then ebind (legacy_isotope table l) (\<lambda>i. set_node_attr atom_map ''isotope'' (PInt i) g)
       else Inr g)"

definition legacy_fields ::
  "(string \<Rightarrow> (int \<times> real) list option) \<Rightarrow> int \<Rightarrow> atom_line \<Rightarrow> asm_state \<Rightarrow> error + asm_state" where
  \<comment> \<open>lines 295 to 301: the legacy element, isotope and z-coordinate of the atom line\<close>
  "legacy_fields table atom_map l st =
     ebind (set_legacy_element atom_map l (graph st)) (\<lambda>g2.
     ebind (set_legacy_isotope table atom_map l g2) (\<lambda>g3.
       Inr (st\<lparr>graph := g3,
               mdl_s_stereo := (if float_nonzero (l_z l) then False else mdl_s_stereo st)\<rparr>)))"

definition atom_step ::
  "float_ops \<Rightarrow> (string \<Rightarrow> (int \<times> real) list option) \<Rightarrow> (int \<times> int) list \<Rightarrow> atom_table
     \<Rightarrow> int \<times> atom_line \<Rightarrow> asm_state \<Rightarrow> error + asm_state" where
  \<comment> \<open>the body of the loop of lines 272 to 301 for the atom \<open>l\<close> at position \<open>k\<close>\<close>
  "atom_step ops table mapping cgr_dat_atom kl st =
     ebind (lookup mapping (fst kl)) (\<lambda>atom_map.
     ebind (add_atom_node ops cgr_dat_atom atom_map kl st) (legacy_fields table atom_map (snd kl)))"

definition bond_attrs :: "bond_table \<Rightarrow> int \<Rightarrow> int \<Rightarrow> int \<Rightarrow> pydict" where
  \<comment> \<open>the keyword arguments of \<^verbatim>\<open>add_edge\<close>, lines 304 to 307\<close>
  "bond_attrs cgr_dat_bond k l m =
     (case map_of cgr_dat_bond k of
        Some row \<Rightarrow>
          (case map_of row l of
             Some d \<Rightarrow> d
           | None \<Rightarrow> [(''s_bond'', PInt m), (''p_bond'', PInt m), (''sp_bond'', PInt m)])
      | None \<Rightarrow> [(''s_bond'', PInt m), (''p_bond'', PInt m), (''sp_bond'', PInt m)])"

definition seed_s_dz :: "int \<Rightarrow> int \<Rightarrow> asm_state \<Rightarrow> mgraph \<Rightarrow> error + mgraph" where
  \<comment> \<open>lines 312 to 313\<close>
  "seed_s_dz atom_map s_mark st g =
     (if mdl_s_stereo st then set_node_attr atom_map ''s_dz'' (PInt s_mark) g else Inr g)"

definition seed_p_dz :: "int \<Rightarrow> int \<Rightarrow> asm_state \<Rightarrow> mgraph \<Rightarrow> error + mgraph" where
  \<comment> \<open>lines 314 to 315\<close>
  "seed_p_dz atom_map s_mark st g =
     (if mdl_p_stereo st \<and> atom_map \<notin> keys (atom_dz st)
      then set_node_attr atom_map ''p_dz'' (PInt s_mark) g else Inr g)"

definition wedge :: "(int \<times> int) list \<Rightarrow> int \<Rightarrow> int \<Rightarrow> asm_state \<Rightarrow> mgraph \<Rightarrow> error + mgraph" where
  \<comment> \<open>lines 309 to 315: the legacy stereo code \<open>s\<close> of a bond whose far atom is at position \<open>l\<close>\<close>
  "wedge mapping l s st g =
     (if s = 1 \<or> s = 6 then
        ebind (lookup mapping l) (\<lambda>atom_map.
        ebind (seed_s_dz atom_map (if s = 1 then 1 else - 1) st g)
              (seed_p_dz atom_map (if s = 1 then 1 else - 1) st))
      else Inr g)"

definition bond_step ::
  "(int \<times> int) list \<Rightarrow> bond_table \<Rightarrow> int \<times> int \<times> int \<times> int \<Rightarrow> asm_state \<Rightarrow> error + asm_state" where
  \<comment> \<open>the body of the loop of lines 303 to 315\<close>
  "bond_step mapping cgr_dat_bond b st =
     (case b of (k, l, m, s) \<Rightarrow>
      ebind (lookup mapping k) (\<lambda>mk.
      ebind (lookup mapping l) (\<lambda>ml.
      ebind (wedge mapping l s st (add_edge mk ml (bond_attrs cgr_dat_bond k l m) (graph st))) (\<lambda>g3.
        Inr (st\<lparr>graph := g3\<rparr>)))))"

definition truthy :: "pyval \<Rightarrow> bool" where
  \<comment> \<open>the truth value of a Python object\<close>
  "truthy v =
     (case v of PNone \<Rightarrow> False | PInt i \<Rightarrow> i \<noteq> 0 | PFloat r \<Rightarrow> float_nonzero r | PStr s \<Rightarrow> s \<noteq> []
      | PTuple xs \<Rightarrow> xs \<noteq> [] | PList xs \<Rightarrow> xs \<noteq> [])"

definition dz_step :: "int \<times> pyval \<Rightarrow> mgraph \<Rightarrow> error + mgraph" where
  \<comment> \<open>the body of the loop of lines 318 to 320\<close>
  "dz_step e g = (case e of (atom, dz) \<Rightarrow> if truthy dz then set_node_attr atom ''p_dz'' dz g else Inr g)"

definition tables :: "float_ops \<Rightarrow> string list \<Rightarrow> molecule \<Rightarrow> error + (atom_table \<times> bond_table)" where
  \<comment> \<open>lines 255 to 269: \<^verbatim>\<open>cgr_dat_atom\<close> and \<^verbatim>\<open>cgr_dat_bond\<close> after the loop over the records\<close>
  "tables ops mendeleyset molecule =
     efold (cgr_dat_step ops mendeleyset (m_atoms molecule)) (m_CGR_DAT molecule) ([], [])"

definition enumerate1 :: "'a list \<Rightarrow> (int \<times> 'a) list" where
  \<comment> \<open>\<^verbatim>\<open>enumerate(xs, start=1)\<close>\<close>
  "enumerate1 xs = zip (map int [1..<Suc (length xs)]) xs"

definition atoms_loop ::
  "float_ops \<Rightarrow> (string \<Rightarrow> (int \<times> real) list option) \<Rightarrow> (int \<times> int) list \<Rightarrow> atom_table
     \<Rightarrow> molecule \<Rightarrow> error + asm_state" where
  \<comment> \<open>lines 253 to 254 and 271 to 301: the state after the loop over the atoms\<close>
  "atoms_loop ops table mapping cgr_dat_atom molecule =
     efold (atom_step ops table mapping cgr_dat_atom) (enumerate1 (m_atoms molecule))
       \<lparr>graph = \<lparr>g_node = [], g_edge = []\<rparr>, mdl_s_stereo = True, mdl_p_stereo = True,
        atom_dz = []\<rparr>"

definition parse_molecule ::
  "float_ops \<Rightarrow> string list \<Rightarrow> (string \<Rightarrow> (int \<times> real) list option) \<Rightarrow> molecule
     \<Rightarrow> (int \<times> int) list \<Rightarrow> error + mgraph" where
  \<comment> \<open>\<^verbatim>\<open>CGRread.__parse_molecule(molecule, mapping)\<close>; the first argument is the float
      arithmetic, the next two are the external periodic table (\<^verbatim>\<open>mendeleyset\<close> and
      \<^verbatim>\<open>elements\<close>)\<close>
  "parse_molecule ops mendeleyset table molecule mapping =
     ebind (tables ops mendeleyset molecule) (\<lambda>(cgr_dat_atom, cgr_dat_bond).
     ebind (atoms_loop ops table mapping cgr_dat_atom molecule) (\<lambda>st1.
     ebind (efold (bond_step mapping cgr_dat_bond) (m_bonds molecule) st1) (\<lambda>st2.
       if mdl_p_stereo st2 then efold dz_step (atom_dz st2) (graph st2)
       else Inr (graph st2))))"



section \<open>Graph encoder: \<^verbatim>\<open>CGRwrite\<close>\<close>

definition ways :: "pyval list" where
  "ways = [PNone, PInt 0, PInt 1, PInt 2, PInt 3, PInt 4, PInt 9]"

definition rep_get :: "pyval \<Rightarrow> string" where
  \<comment> \<open>\<^verbatim>\<open>'%s' % rep.get(x, x)\<close> with \<^verbatim>\<open>rep = {None: 0}\<close>, for the members of \<^verbatim>\<open>ways\<close>\<close>
  "rep_get x = (case x of PInt i \<Rightarrow> str_int i | _ \<Rightarrow> ''0'')"

definition is_list :: "pyval \<Rightarrow> bool" where
  \<comment> \<open>a list is unhashable: using it as a dictionary key raises \<open>TypeError\<close>\<close>
  "is_list x = (case x of PList _ \<Rightarrow> True | _ \<Rightarrow> False)"

definition to_cgr :: "pyval \<Rightarrow> pyval \<Rightarrow> error + (string \<times> string option \<times> string option)" where
  \<comment> \<open>the lookup \<^verbatim>\<open>self.__cgr[x][y]\<close> in the table built by \<^verbatim>\<open>CGRwrite.__to_cgr\<close>: the
      legacy bond code, the record value and the record type (\<open>None\<close> where the table holds
      \<^verbatim>\<open>None\<close> and \<^verbatim>\<open>False\<close>); a pair outside \<^verbatim>\<open>ways\<close> raises\<close>
  "to_cgr x y =
     (if is_list x \<or> is_list y then Inl TypeError
      else if x \<notin> set ways \<or> y \<notin> set ways then Inl KeyError
      else if x \<noteq> y then Inr (''8'', Some (rep_get x @ ''>'' @ rep_get y), Some ''dynbond'')
      else if x = PInt 9 then Inr (''8'', Some ''s'', Some ''extrabond'')
      else Inr (rep_get x, None, None))"

definition dict_get :: "pydict \<Rightarrow> string \<Rightarrow> pyval" where
  \<comment> \<open>\<^verbatim>\<open>j.get(key)\<close>\<close>
  "dict_get d k = (case map_of d k of None \<Rightarrow> PNone | Some v \<Rightarrow> v)"

definition encode_bond :: "int \<Rightarrow> int \<Rightarrow> pydict \<Rightarrow> error + (cgr_record list \<times> (int \<times> int \<times> string))" where
  \<comment> \<open>lines 387 to 391 of \<^verbatim>\<open>get_formatted_cgr\<close> for one edge with attributes \<open>j\<close> between the
      renumbered atoms \<open>ri\<close> and \<open>rl\<close>: the records appended to \<^verbatim>\<open>cgr_dat\<close> and the entry
      appended to \<^verbatim>\<open>bonds\<close>\<close>
  "encode_bond ri rl j =
     ebind (to_cgr (dict_get j ''s_bond'') (dict_get j ''p_bond'')) (\<lambda>(bond, cbond, btype).
       Inr ((case (cbond, btype) of
               (Some v, Some t) \<Rightarrow> [\<lparr>rec_atoms = [ri, rl], rec_type = t, rec_value = Str v\<rparr>]
             | _ \<Rightarrow> []),
            (ri, rl, bond)))"

definition toMDL :: "int \<Rightarrow> int" where
  \<comment> \<open>\<^verbatim>\<open>toMDL.get(charge, 0)\<close>\<close>
  "toMDL c = (if c = -3 then 7 else if c = -2 then 6 else if c = -1 then 5 else if c = 1 then 3
              else if c = 2 then 2 else if c = 3 then 1 else 0)"

definition charge_scalar :: "bool \<Rightarrow> int \<Rightarrow> int \<Rightarrow> int \<times> (string \<times> string) option" where
  \<comment> \<open>\<^verbatim>\<open>CGRwrite.__charge(s, p)\<close> for scalar (not list-valued) charges: the legacy charge
      and the optional record as (type, value)\<close>
  "charge_scalar is_mdl s p =
     (if is_mdl then toMDL s else s,
      if p \<noteq> s then Some (''dynatom'', ''c'' @ fmt_plus_d (p - s)) else None)"

section \<open>Dual-state graph: \<^verbatim>\<open>CGRContainer\<close>\<close>

text \<open>
  Modelled from the spec: the attribute classes \<^verbatim>\<open>DynAtom\<close> and \<^verbatim>\<open>DynBond\<close> and the graph
  substrate are not part of the sources. A node carries its element, a reagent and a product
  view, the two stereo marks and the four classification marks; an edge carries the two
  orders (\<open>None\<close> for an absent bond), a reagent and a product view and the two stereo marks.
  The views are values of a type parameter: a view stands for what the comparison of two
  views compares. The graph is a node dictionary in insertion order, a list of edges with
  one entry per unordered pair of end points, and the cache of derived results (\<open>None\<close>
  when it is empty). Every end point of an edge is a node.
\<close>

record 'a dyn_atom =
  a_element :: string
  a_reagent :: 'a
  a_product :: 'a
  a_stereo :: "int option"
  a_p_stereo :: "int option"
  a_neighbors :: "int option"
  a_hybridization :: "int option"
  a_p_neighbors :: "int option"
  a_p_hybridization :: "int option"

record 'b dyn_bond =
  b_order :: "int option"
  b_p_order :: "int option"
  b_reagent :: 'b
  b_product :: 'b
  b_stereo :: "int option"
  b_p_stereo :: "int option"

record ('a, 'b, 'c) cgr =
  cgr_nodes :: "(int \<times> 'a dyn_atom) list"
  cgr_edges :: "(int \<times> int \<times> 'b dyn_bond) list"
  cgr_cache :: "'c option"

definition adj :: "('a, 'b, 'c) cgr \<Rightarrow> int \<Rightarrow> (int \<times> 'b dyn_bond) list" where
  \<comment> \<open>\<^verbatim>\<open>g._adj[i].items()\<close>: the neighbours of a node with the bonds to them\<close>
  "adj g i =
     concat (map (\<lambda>(u, v, b). if u = i then [(v, b)] else if v = i then [(u, b)] else [])
               (cgr_edges g))"

definition flush_cache :: "('a, 'b, 'c) cgr \<Rightarrow> ('a, 'b, 'c) cgr" where
  "flush_cache g = g\<lparr>cgr_cache := None\<rparr>"

definition copy :: "('a, 'b, 'c) cgr \<Rightarrow> ('a, 'b, 'c) cgr" where
  \<comment> \<open>a new graph object with the same nodes and edges; its cache is empty\<close>
  "copy g = g\<lparr>cgr_cache := None\<rparr>"

definition order_set :: "int option \<Rightarrow> bool" where
  \<comment> \<open>the truth value of a bond order: \<^verbatim>\<open>None\<close> and 0 are false\<close>
  "order_set ord = (case ord of None \<Rightarrow> False | Some v \<Rightarrow> v \<noteq> 0)"

subsection \<open>\<^verbatim>\<open>get_center_atoms\<close>\<close>

definition atom_in_center :: "bool \<Rightarrow> 'a dyn_atom \<Rightarrow> bool" where
  \<comment> \<open>the condition of line 40\<close>
  "atom_in_center stereo atom =
     (a_reagent atom \<noteq> a_product atom \<or> (stereo \<and> a_stereo atom \<noteq> a_p_stereo atom))"

definition bond_in_center :: "bool \<Rightarrow> 'b dyn_bond \<Rightarrow> bool" where
  \<comment> \<open>the condition of line 44\<close>
  "bond_in_center stereo bond =
     (b_reagent bond \<noteq> b_product bond \<or> (stereo \<and> b_stereo bond \<noteq> b_p_stereo bond))"

definition get_center_atoms :: "bool \<Rightarrow> ('a, 'b, 'c) cgr \<Rightarrow> int list" where
  \<comment> \<open>the set \<^verbatim>\<open>nodes\<close> is a list without repetitions; the order of \<^verbatim>\<open>list(nodes)\<close> is not
      specified by Python and carries no meaning here\<close>
  "get_center_atoms stereo g =
     (let nodes1 = fold (\<lambda>(n, atom) nodes. if atom_in_center stereo atom then List.insert n nodes
                                              else nodes) (cgr_nodes g) [];
          nodes2 = fold (\<lambda>(n, m, bond) nodes.
                           if bond_in_center stereo bond then List.insert m (List.insert n nodes)
                           else nodes) (cgr_edges g) nodes1
      in nodes2)"

subsection \<open>\<^verbatim>\<open>decompose\<close>\<close>

text \<open>
  Modelled from the spec: a standalone molecule graph (\<^verbatim>\<open>MoleculeContainer\<close>) with one view
  per node and per edge. Adding an existing node replaces its attributes; adding an edge
  creates the end points that are absent, with the attributes \<open>dflt\<close> of the node factory,
  and replaces the attributes of an existing edge between the same end points.
\<close>

record ('a, 'b) mol =
  mol_nodes :: "(int \<times> 'a) list"
  mol_edges :: "(int \<times> int \<times> 'b) list"

definition mol_add_node :: "int \<times> 'a \<Rightarrow> ('a, 'b) mol \<Rightarrow> ('a, 'b) mol" where
  "mol_add_node na g = g\<lparr>mol_nodes := AList.update (fst na) (snd na) (mol_nodes g)\<rparr>"

definition same_pair :: "int \<Rightarrow> int \<Rightarrow> int \<times> int \<times> 'b \<Rightarrow> bool" where
  \<comment> \<open>the edge joins the two nodes, in either direction\<close>
  "same_pair n m e = ((fst e = n \<and> fst (snd e) = m) \<or> (fst e = m \<and> fst (snd e) = n))"

definition mol_add_edge :: "'a \<Rightarrow> int \<times> int \<times> 'b \<Rightarrow> ('a, 'b) mol \<Rightarrow> ('a, 'b) mol" where
  "mol_add_edge dflt e g =
     (case e of (n, m, b) \<Rightarrow>
      let ns1 = (if n \<in> keys (mol_nodes g) then mol_nodes g else mol_nodes g @ [(n, dflt)]);
          ns2 = (if m \<in> keys ns1 then ns1 else ns1 @ [(m, dflt)])
      in \<lparr>mol_nodes = ns2,
          mol_edges = (if list_ex (same_pair n m) (mol_edges g)
                       then map (\<lambda>e'. if same_pair n m e' then (fst e', fst (snd e'), b) else e')
                              (mol_edges g)
                       else mol_edges g @ [(n, m, b)])\<rparr>)"

definition decompose :: "'a \<Rightarrow> ('a, 'b, 'c) cgr \<Rightarrow> ('a, 'b) mol \<times> ('a, 'b) mol" where
  \<comment> \<open>the pair is the \<^verbatim>\<open>DynamicContainer(reagents, products)\<close>\<close>
  "decompose dflt g =
     (let reagents0 = fold mol_add_node (map (\<lambda>(n, atom). (n, a_reagent atom)) (cgr_nodes g))
                        \<lparr>mol_nodes = [], mol_edges = []\<rparr>;
          products0 = fold mol_add_node (map (\<lambda>(n, atom). (n, a_product atom)) (cgr_nodes g))
                        \<lparr>mol_nodes = [], mol_edges = []\<rparr>;
          nmb = cgr_edges g;
          reagents = fold (mol_add_edge dflt)
                       (map (\<lambda>(n, m, bond). (n, m, b_reagent bond))
                          (filter (\<lambda>(n, m, bond). order_set (b_order bond)) nmb)) reagents0;
          products = fold (mol_add_edge dflt)
                       (map (\<lambda>(n, m, bond). (n, m, b_product bond))
                          (filter (\<lambda>(n, m, bond). order_set (b_p_order bond)) nmb)) products0
      in (reagents, products))"

subsection \<open>\<^verbatim>\<open>reset_query_marks\<close>\<close>

definition hyb_step :: "int \<Rightarrow> int option \<Rightarrow> int" where
  \<comment> \<open>lines 89 and 92 to 101 (and 103, 106 to 115): the hybridization after one bond order;
      1 is sp3, 2 is sp2, 3 is sp, 4 is aromatic\<close>
  "hyb_step hybridization ord =
     (if order_set ord then
        (if hybridization \<notin> set [3, 4] then
           (if ord = Some 4 then 4
            else if ord = Some 3 then 3
            else if ord = Some 2 then (if hybridization = 2 then 3 else 2)
            else hybridization)
         else hybridization)
      else hybridization)"

definition hyb_scan :: "int option list \<Rightarrow> int" where
  \<comment> \<open>line 81 (83) and the loop of line 85: the hybridization after the scan of the given
      bond orders, in the order of the scan\<close>
  "hyb_scan orders = foldl hyb_step 1 orders"

definition nb_step :: "bool \<Rightarrow> int \<Rightarrow> int option \<Rightarrow> int" where
  \<comment> \<open>lines 89 to 91 (and 103 to 105): the neighbour count after one bond\<close>
  "nb_step isnth neighbors ord = (if order_set ord \<and> isnth then neighbors + 1 else neighbors)"

definition is_not_h :: "('a, 'b, 'c) cgr \<Rightarrow> int \<Rightarrow> error + bool" where
  \<comment> \<open>\<^verbatim>\<open>g._node[j] != 'H'\<close>: the node is compared with the element symbol\<close>
  "is_not_h g j = ebind (lookup (cgr_nodes g) j) (\<lambda>atom. Inr (a_element atom \<noteq> ''H''))"

definition mark_step ::
  "('a, 'b, 'c) cgr \<Rightarrow> int \<times> 'b dyn_bond \<Rightarrow> int \<times> int \<times> int \<times> int \<Rightarrow> error + (int \<times> int \<times> int \<times> int)" where
  \<comment> \<open>the body of the loop of lines 85 to 115 on (neighbors, hybridization, p_neighbors,
      p_hybridization)\<close>
  "mark_step g jb mks =
     (case mks of (neighbors, hybridization, p_neighbors, p_hybridization) \<Rightarrow>
      ebind (is_not_h g (fst jb)) (\<lambda>isnth.
        Inr (nb_step isnth neighbors (b_order (snd jb)),
             hyb_step hybridization (b_order (snd jb)),
             nb_step isnth p_neighbors (b_p_order (snd jb)),
             hyb_step p_hybridization (b_p_order (snd jb)))))"

definition atom_marks :: "('a, 'b, 'c) cgr \<Rightarrow> int \<Rightarrow> error + (int \<times> int \<times> int \<times> int)" where
  \<comment> \<open>lines 80 to 115: the four marks of the node \<open>i\<close>\<close>
  "atom_marks g i = efold (mark_step g) (adj g i) (0, 1, 0, 1)"

definition set_marks :: "'a dyn_atom \<Rightarrow> int \<times> int \<times> int \<times> int \<Rightarrow> 'a dyn_atom" where
  \<comment> \<open>lines 117 to 120\<close>
  "set_marks atom mks =
     (case mks of (neighbors, hybridization, p_neighbors, p_hybridization) \<Rightarrow>
      atom\<lparr>a_neighbors := Some neighbors, a_hybridization := Some hybridization,
           a_p_neighbors := Some p_neighbors, a_p_hybridization := Some p_hybridization\<rparr>)"

definition marked_nodes :: "('a, 'b, 'c) cgr \<Rightarrow> error + (int \<times> 'a dyn_atom) list" where
  \<comment> \<open>lines 79 to 120: the nodes after the loop. The loop changes marks only; the elements
      and the bonds it reads stay as they are.\<close>
  "marked_nodes g =
     emap (\<lambda>(i, atom). ebind (atom_marks g i) (\<lambda>mks. Inr (i, set_marks atom mks))) (cgr_nodes g)"

definition reset_query_marks ::
  "bool \<Rightarrow> ('a, 'b, 'c) cgr \<Rightarrow> error + (('a, 'b, 'c) cgr \<times> ('a, 'b, 'c) cgr option)" where
  \<comment> \<open>the receiver after the call and the returned value (\<open>None\<close> for \<^verbatim>\<open>None\<close>)\<close>
  "reset_query_marks cp self =
     (let g = (if cp then copy self else self) in
      ebind (marked_nodes g) (\<lambda>ns.
        if cp then Inr (self, Some (g\<lparr>cgr_nodes := ns\<rparr>))
        else Inr (flush_cache (g\<lparr>cgr_nodes := ns\<rparr>), None)))"

section \<open>Predicates used in the statements\<close>

definition same_sides :: "string \<Rightarrow> bool" where
  \<comment> \<open>a transition token whose before-symbol equals its after-symbol\<close>
  "same_sides x = (let parts = split_on CHR ''>'' x in 2 \<le> length parts \<and> hd parts = last parts)"

definition no_attr :: "string \<Rightarrow> mgraph \<Rightarrow> bool" where
  \<comment> \<open>no node of the graph has the attribute\<close>
  "no_attr key g = list_all (\<lambda>nd. key \<notin> keys (snd nd)) (g_node g)"


definition ends_ok :: "('a, 'b, 'c) cgr \<Rightarrow> bool" where
  \<comment> \<open>every end point of an edge is a node of the graph\<close>
  "ends_ok g = list_all (\<lambda>(u, v, b). u \<in> keys (cgr_nodes g) \<and> v \<in> keys (cgr_nodes g)) (cgr_edges g)"

definition simple_edges :: "(int \<times> int \<times> 'b) list \<Rightarrow> bool" where
  \<comment> \<open>at most one edge joins two nodes, whatever the direction\<close>
  "simple_edges es = distinct (map (\<lambda>e. (min (fst e) (fst (snd e)), max (fst e) (fst (snd e)))) es)"

definition is_graph :: "('a, 'b, 'c) cgr \<Rightarrow> bool" where
  \<comment> \<open>what the graph substrate maintains: the node identifiers are the keys of a dictionary,
      every edge ends in nodes, and two nodes are joined by one edge at most\<close>
  "is_graph g = (distinct (map fst (cgr_nodes g)) \<and> ends_ok g \<and> simple_edges (cgr_edges g))"

text \<open>
  The two definitions below follow the words of the specification, not the code: the
  derived product-side z-coordinate of an atom is its legacy z-coordinate, to which the
  z-component of the coordinate shift is added (shift + legacy z, in floating point) when
  the atom's extension records hold a coordinate shift; it is low when it is less than the
  float that the literal \<^verbatim>\<open>.0001\<close> denotes, the double 7378697629483821 / 2^66.
\<close>

definition product_z :: "float_ops \<Rightarrow> pydict \<Rightarrow> atom_line \<Rightarrow> fval" where
  \<comment> \<open>\<open>dat\<close> is the entry of the atom in the atom table, the decoded records of the atom\<close>
  "product_z ops dat l =
     (case map_of dat ''p_z'' of
        Some (PFloat shift) \<Rightarrow> f_add ops shift (l_z l)
      | _ \<Rightarrow> l_z l)"

definition low_product_z :: "float_ops \<Rightarrow> atom_table \<Rightarrow> int \<times> atom_line \<Rightarrow> bool" where
  \<comment> \<open>the atom at position \<open>k\<close> has an entry in the atom table and its derived product-side
      z-coordinate is below the threshold\<close>
  "low_product_z ops cgr_dat_atom kl =
     (case map_of cgr_dat_atom (fst kl) of
        None \<Rightarrow> False
      | Some dat \<Rightarrow> float_lt (product_z ops dat (snd kl)) (Finite (7378697629483821 / 2 ^ 66)))"

definition shift_ok :: "pydict \<Rightarrow> bool" where
  \<comment> \<open>the three components of a coordinate shift come together, and they are floats\<close>
  "shift_ok d =
     ((map_of d ''p_x'' = None \<and> map_of d ''p_y'' = None \<and> map_of d ''p_z'' = None)
      \<or> (\<exists>x y z. map_of d ''p_x'' = Some (PFloat x) \<and> map_of d ''p_y'' = Some (PFloat y)
                  \<and> map_of d ''p_z'' = Some (PFloat z)))"

definition is_shift :: "pydict \<Rightarrow> bool" where
  \<comment> \<open>the dictionary of a decoded coordinate shift\<close>
  "is_shift d = (\<exists>x y z. d = [(''p_x'', PFloat x), (''p_y'', PFloat y), (''p_z'', PFloat z)])"

definition no_shift :: "pydict \<Rightarrow> bool" where
  \<comment> \<open>a dictionary without any component of a coordinate shift\<close>
  "no_shift d = (''p_x'' \<notin> keys d \<and> ''p_y'' \<notin> keys d \<and> ''p_z'' \<notin> keys d)"

definition atom_keys :: "string set" where
  \<comment> \<open>the attribute names the record decoders can produce\<close>
  "atom_keys = set [''s_charge'', ''p_charge'', ''sp_charge'', ''p_x'', ''p_y'', ''p_z'', ''dz'',
     ''element'', ''isotope'', ''s_hyb'', ''p_hyb'', ''sp_hyb'', ''s_neighbors'', ''p_neighbors'',
     ''sp_neighbors'', ''s_bond'', ''p_bond'', ''sp_bond'']"

definition tab_ok :: "atom_table \<Rightarrow> bool" where
  \<comment> \<open>what the record loop maintains of the atom table\<close>
  "tab_ok ta = (\<forall>k d. map_of ta k = Some d \<longrightarrow> keys d \<subseteq> atom_keys \<and> shift_ok d)"

subsection \<open>Example inputs\<close>

definition carbon_table :: "string \<Rightarrow> (int \<times> real) list option" where
  \<comment> \<open>a periodic table that knows carbon: carbon-12 (98.9 %) and carbon-13 (1.1 %)\<close>
  "carbon_table e = (if e = ''C'' then Some [(12, 989 / 1000), (13, 11 / 1000)] else None)"

definition small_int_ops :: float_ops where
  \<comment> \<open>float arithmetic for the examples: \<^verbatim>\<open>float(s)\<close> of an integer literal and the sum of two
      floats without rounding. On the literals and the small integers of the examples this
      is what the interpreter computes; the examples use nothing else.\<close>
  "small_int_ops =
     \<lparr>f_float = (\<lambda>s. ebind (py_int s) (\<lambda>i. Inr (Finite (real_of_int i)))),
      f_add = (\<lambda>a b. case a of
                 Finite x \<Rightarrow> (case b of Finite y \<Rightarrow> Finite (x + y) | _ \<Rightarrow> b)
               | PosInf \<Rightarrow> (case b of NegInf \<Rightarrow> NaN | NaN \<Rightarrow> NaN | _ \<Rightarrow> PosInf)
               | NegInf \<Rightarrow> (case b of PosInf \<Rightarrow> NaN | NaN \<Rightarrow> NaN | _ \<Rightarrow> NegInf)
               | NaN \<Rightarrow> NaN)\<rparr>"

definition carbon :: "int \<Rightarrow> real \<Rightarrow> int \<Rightarrow> atom_line" where
  \<comment> \<open>a carbon atom line with the given map number, z-coordinate and legacy isotope field\<close>
  "carbon m z i = \<lparr>l_map = m, l_element = ''C'', l_isotope = i, l_charge = 0, l_mark = ''0'',
                   l_x = Finite 0, l_y = Finite 0, l_z = Finite z\<rparr>"

definition flat_wedge :: molecule where
  \<comment> \<open>two atoms in the plane, one wedge bond (stereo code 1), no extension record\<close>
  "flat_wedge = \<lparr>m_atoms = [carbon 0 0 0, carbon 0 0 0], m_bonds = [(1, 2, 1, 1)], m_CGR_DAT = []\<rparr>"

definition raised_wedge :: molecule where
  \<comment> \<open>the second atom has z = 1 and a coordinate shift of -2 in z; one wedge bond\<close>
  "raised_wedge = \<lparr>m_atoms = [carbon 0 0 0, carbon 0 1 0], m_bonds = [(1, 2, 1, 1)],
     m_CGR_DAT = [\<lparr>rec_atoms = [2], rec_type = ''dynatom'', rec_value = Str ''x0,0,-2''\<rparr>]\<rparr>"

definition atom_of :: "string \<Rightarrow> int \<Rightarrow> int \<Rightarrow> int dyn_atom" where
  \<comment> \<open>an atom of the given element with the given reagent and product views, without marks\<close>
  "atom_of e r p = \<lparr>a_element = e, a_reagent = r, a_product = p, a_stereo = None, a_p_stereo = None,
     a_neighbors = None, a_hybridization = None, a_p_neighbors = None, a_p_hybridization = None\<rparr>"

definition bond_of :: "int option \<Rightarrow> int option \<Rightarrow> int dyn_bond" where
  \<comment> \<open>a bond with the given reagent and product orders; the view of a side is its order\<close>
  "bond_of s p = \<lparr>b_order = s, b_p_order = p, b_reagent = (case s of None \<Rightarrow> 0 | Some v \<Rightarrow> v),
     b_product = (case p of None \<Rightarrow> 0 | Some v \<Rightarrow> v), b_stereo = None, b_p_stereo = None\<rparr>"

definition cumulene :: "(int, int, unit) cgr" where
  \<comment> \<open>atom 1 with a double bond to atom 2 and a double bond to atom 3\<close>
  "cumulene = \<lparr>cgr_nodes = [(1, atom_of ''C'' 0 0), (2, atom_of ''C'' 0 0), (3, atom_of ''C'' 0 0)],
     cgr_edges = [(1, 2, bond_of (Some 2) (Some 2)), (1, 3, bond_of (Some 2) (Some 2))],
     cgr_cache = None\<rparr>"

definition sp_then_aromatic :: "(int, int, unit) cgr" where
  \<comment> \<open>atom 1 with a triple bond to atom 2 and an aromatic bond to atom 3\<close>
  "sp_then_aromatic = \<lparr>cgr_nodes = [(1, atom_of ''C'' 0 0), (2, atom_of ''C'' 0 0), (3, atom_of ''C'' 0 0)],
     cgr_edges = [(1, 2, bond_of (Some 3) (Some 3)), (1, 3, bond_of (Some 4) (Some 4))],
     cgr_cache = None\<rparr>"

definition center_example :: "(int, int, unit) cgr" where
  \<comment> \<open>the views of atom 2 differ; the bond 3-4 changes its order, the bond 2-3 is formed\<close>
  "center_example =
     \<lparr>cgr_nodes = [(1, atom_of ''C'' 0 0), (2, atom_of ''C'' 0 1), (3, atom_of ''C'' 0 0),
                   (4, atom_of ''O'' 0 0)],
      cgr_edges = [(1, 2, bond_of (Some 1) (Some 1)), (3, 4, bond_of (Some 1) (Some 2)),
                   (2, 3, bond_of None (Some 1))],
      cgr_cache = None\<rparr>"



section \<open>Lemmas on strings and numbers\<close>

lemma split_on_single: "c \<notin> set s \<Longrightarrow> split_on c s = [s]"
  by (induction s) auto

lemma lt10_cases: "n < 10 \<Longrightarrow> n \<in> {0, 1, 2, 3, 4, 5, 6, 7, 8, 9 :: nat}"
  by auto

lemma is_digit_digit_char: "n < 10 \<Longrightarrow> is_digit (digit_char n)"
  by (drule lt10_cases) (auto simp: is_digit_def digit_char_def)

lemma digit_val_digit_char: "n < 10 \<Longrightarrow> digit_val (digit_char n) = int n"
  by (drule lt10_cases) (auto simp: digit_val_def digit_char_def)

lemma is_digit_simps:
  "is_digit c \<Longrightarrow> \<not> is_space c \<and> c \<noteq> CHR '','' \<and> c \<noteq> CHR ''_'' \<and> c \<noteq> CHR ''+'' \<and> c \<noteq> CHR ''-''"
  by (auto simp: is_digit_def is_space_def)

lemma str_nat_digits: "\<forall>c \<in> set (str_nat n). is_digit c"
  by (induction n rule: str_nat.induct) (subst str_nat.simps, auto simp: is_digit_digit_char)

lemma str_nat_nonempty: "str_nat n \<noteq> []"
  by (subst str_nat.simps) auto

lemma int_digits_append:
  "\<forall>c \<in> set xs. is_digit c \<Longrightarrow>
     int_digits acc (xs @ ys) = int_digits (foldl (\<lambda>a c. 10 * a + digit_val c) acc xs) ys"
  by (induction xs arbitrary: acc) auto

lemma foldl_str_nat: "foldl (\<lambda>a c. 10 * a + digit_val c) 0 (str_nat n) = int n"
proof (induction n rule: str_nat.induct)
  case (1 n)
  show ?case
  proof (cases "n < 10")
    case True
    then show ?thesis by (subst str_nat.simps) (simp add: digit_val_digit_char)
  next
    case False
    then have "foldl (\<lambda>a c. 10 * a + digit_val c) 0 (str_nat (n div 10)) = int (n div 10)"
      using 1 by simp
    with False show ?thesis
      by (subst str_nat.simps) (simp add: digit_val_digit_char zdiv_int zmod_int)
  qed
qed

lemma unsigned_int_str_nat: "unsigned_int (str_nat n) = Inr (int n)"
proof -
  obtain c cs where s: "str_nat n = c # cs"
    using str_nat_nonempty by (cases "str_nat n") auto
  have d: "is_digit c" using str_nat_digits [of n] s by simp
  have "int_digits 0 (str_nat n @ []) = int_digits (int n) []"
    using int_digits_append [OF str_nat_digits, of 0 n "[]"] by (simp add: foldl_str_nat)
  then show ?thesis using s d by (simp add: unsigned_int_def)
qed

lemma strip_id: "s \<noteq> [] \<Longrightarrow> \<not> is_space (hd s) \<Longrightarrow> \<not> is_space (last s) \<Longrightarrow> strip s = s"
proof -
  assume a: "s \<noteq> []" "\<not> is_space (hd s)" "\<not> is_space (last s)"
  then have "dropWhile is_space s = s"
    by (cases s) auto
  moreover have "dropWhile is_space (rev s) = rev s"
    using a by (cases "rev s") (auto simp: hd_rev)
  ultimately show ?thesis by (simp add: strip_def)
qed

lemma last_str_nat: "is_digit (last (str_nat n))"
  using str_nat_digits [of n] str_nat_nonempty [of n] last_in_set by blast

lemma strip_signed: "c = CHR ''-'' \<or> c = CHR ''+'' \<Longrightarrow> strip (c # str_nat n) = c # str_nat n"
proof -
  assume c: "c = CHR ''-'' \<or> c = CHR ''+''"
  have "\<not> is_space (last (str_nat n))"
    using last_str_nat is_digit_simps by blast
  moreover have "\<not> is_space c" using c by (auto simp: is_space_def)
  ultimately show ?thesis
    using str_nat_nonempty [of n] by (intro strip_id) simp_all
qed

text \<open>Reading back a number printed with \<^verbatim>\<open>%+d\<close> gives the number.\<close>

lemma py_int_fmt_plus_d: "py_int (fmt_plus_d d) = Inr d"
  by (simp add: py_int_def fmt_plus_d_def strip_signed unsigned_int_str_nat)

lemma comma_fmt_plus_d: "CHR '','' \<notin> set (fmt_plus_d d)"
proof -
  have "CHR '','' \<notin> set (str_nat n)" for n
    using str_nat_digits [of n] is_digit_simps by blast
  then show ?thesis by (simp add: fmt_plus_d_def)
qed

lemma py_int_plus_one: "py_int ''+1'' = Inr 1"
  by (simp add: py_int_def strip_def is_space_def unsigned_int_def is_digit_def digit_val_def)

section \<open>Lemmas on the record decoder\<close>

lemma parsedyn_loop_filter:
  "parsedyn_loop name xs = parsedyn_loop name (filter (\<lambda>x. \<not> same_sides x) xs)"
  by (induction xs) (auto simp: same_sides_def Let_def)

lemma parsedyn_loop_all_same:
  "\<forall>x \<in> set xs. same_sides x \<Longrightarrow> parsedyn_loop name xs = Inr ([], [])"
  by (induction xs) (auto simp: same_sides_def Let_def)

section \<open>Lemmas on dictionaries\<close>

lemma ebind_Inr_iff: "ebind m f = Inr y \<longleftrightarrow> (\<exists>x. m = Inr x \<and> f x = Inr y)"
  by (cases m) auto

lemma efold_invariant:
  assumes "efold f xs s = Inr s'" and "P s"
    and "\<And>x a b. P a \<Longrightarrow> f x a = Inr b \<Longrightarrow> P b"
  shows "P s'"
  using assms(1,2)
proof (induction xs arbitrary: s)
  case Nil
  then show ?case by simp
next
  case (Cons x xs)
  then obtain s1 where "f x s = Inr s1" "efold f xs s1 = Inr s'"
    by (auto simp: ebind_Inr_iff)
  then show ?case using Cons.IH Cons.prems(2) assms(3) by blast
qed

lemma keys_Nil: "keys [] = {}"
  by (simp add: keys_def)

lemma keys_Cons: "keys (x # xs) = insert (fst x) (keys xs)"
  by (simp add: keys_def)

lemma keys_append: "keys (xs @ ys) = keys xs \<union> keys ys"
  by (simp add: keys_def image_Un)

lemma keys_update: "keys (AList.update k v d) = insert k (keys d)"
  by (simp add: keys_def dom_update)

lemma keys_delete: "keys (AList.delete k d) \<subseteq> keys d"
  unfolding keys_def by (rule dom_delete_subset)

lemma keys_map_of: "map_of d k = Some v \<Longrightarrow> k \<in> keys d"
  unfolding keys_def by (metis domI dom_map_of_conv_image_fst)

lemma keys_in_set: "(k, v) \<in> set d \<Longrightarrow> k \<in> keys d"
  unfolding keys_def by force

lemma keys_update_all: "keys (update_all other d) = keys d \<union> keys other"
proof (induction other arbitrary: d)
  case Nil
  then show ?case by (simp add: update_all_def keys_Nil)
next
  case (Cons a other)
  have "update_all (a # other) d = update_all other (AList.update (fst a) (snd a) d)"
    by (simp add: update_all_def split_beta)
  then show ?case
    using Cons [of "AList.update (fst a) (snd a) d"] by (simp add: keys_update keys_Cons)
qed

lemma set_update_subset: "set (AList.update k v al) \<subseteq> insert (k, v) (set al)"
  by (induction al) auto

lemma lookup_Inr_iff: "lookup d k = Inr v \<longleftrightarrow> map_of d k = Some v"
  by (cases "map_of d k") (simp_all add: lookup_def)

lemma keys_map_of_None: "map_of d k = None \<longleftrightarrow> k \<notin> keys d"
  unfolding keys_def by (simp add: map_of_eq_None_iff)

lemma map_of_update_all_notin: "k \<notin> keys other \<Longrightarrow> map_of (update_all other d) k = map_of d k"
proof (induction other arbitrary: d)
  case Nil
  then show ?case by (simp add: update_all_def)
next
  case (Cons a other)
  have u: "update_all (a # other) d = update_all other (AList.update (fst a) (snd a) d)"
    by (simp add: update_all_def split_beta)
  have "k \<noteq> fst a" "k \<notin> keys other"
    using Cons.prems by (simp_all add: keys_Cons)
  then show ?case
    using Cons.IH [of "AList.update (fst a) (snd a) d"] by (simp add: u update_conv')
qed

lemma shift_ok_Nil: "shift_ok []"
  by (simp add: shift_ok_def)

lemma shift_ok_update_all:
  assumes "shift_ok d0" and "is_shift d \<or> no_shift d"
  shows "shift_ok (update_all d d0)"
  using assms(2)
proof
  assume "is_shift d"
  then show ?thesis
    by (auto simp: is_shift_def shift_ok_def update_all_def update_conv')
next
  assume "no_shift d"
  then have "map_of (update_all d d0) ''p_x'' = map_of d0 ''p_x''"
    "map_of (update_all d d0) ''p_y'' = map_of d0 ''p_y''"
    "map_of (update_all d d0) ''p_z'' = map_of d0 ''p_z''"
    by (simp_all add: no_shift_def map_of_update_all_notin)
  then show ?thesis
    using assms(1) by (simp add: shift_ok_def)
qed

section \<open>Lemmas on the graph\<close>

lemma no_attr_iff: "no_attr key g \<longleftrightarrow> (\<forall>n d. (n, d) \<in> set (g_node g) \<longrightarrow> key \<notin> keys d)"
  by (simp add: no_attr_def list_all_iff Ball_def)

lemma no_attr_map_of: "no_attr key g \<Longrightarrow> map_of (g_node g) n = Some d \<Longrightarrow> key \<notin> keys d"
  using map_of_SomeD [of "g_node g" n d] by (simp add: no_attr_iff)

lemma no_attr_update:
  assumes "no_attr key g" and "key \<notin> keys d'"
  shows "no_attr key (g\<lparr>g_node := AList.update n d' (g_node g)\<rparr>)"
proof -
  have "key \<notin> keys d" if "(m, d) \<in> set (AList.update n d' (g_node g))" for m d
  proof -
    have "(m, d) = (n, d') \<or> (m, d) \<in> set (g_node g)"
      using that set_update_subset [of n d' "g_node g"] by blast
    then show ?thesis
      using assms by (auto simp: no_attr_iff)
  qed
  then show ?thesis by (simp add: no_attr_iff)
qed

lemma no_attr_add_node:
  assumes "no_attr key g" and "key \<notin> keys attrs"
  shows "no_attr key (add_node n attrs g)"
proof -
  have "key \<notin> keys (update_all attrs (case map_of (g_node g) n of None \<Rightarrow> [] | Some d \<Rightarrow> d))"
    using assms no_attr_map_of [of key g n]
    by (cases "map_of (g_node g) n") (simp_all add: keys_update_all keys_Nil)
  then show ?thesis
    unfolding add_node_def using assms(1) by (rule no_attr_update [rotated])
qed

lemma no_attr_ensure_node: "no_attr key g \<Longrightarrow> no_attr key (ensure_node n g)"
  by (auto simp: no_attr_iff ensure_node_def keys_Nil)

lemma g_node_add_edge: "g_node (add_edge u v attrs g) = g_node (ensure_node v (ensure_node u g))"
  by (simp add: add_edge_def Let_def split: option.splits)

lemma no_attr_add_edge: "no_attr key g \<Longrightarrow> no_attr key (add_edge u v attrs g)"
  using no_attr_ensure_node [of key "ensure_node u g" v] no_attr_ensure_node [of key g u]
  by (simp add: no_attr_iff g_node_add_edge)

lemma set_node_attr_Inr:
  assumes "set_node_attr n k v g = Inr g'"
  shows "\<exists>d. map_of (g_node g) n = Some d
           \<and> g' = g\<lparr>g_node := AList.update n (AList.update k v d) (g_node g)\<rparr>"
  using assms by (cases "map_of (g_node g) n") (simp_all add: set_node_attr_def)

lemma no_attr_set_node_attr:
  assumes "no_attr key g" and "set_node_attr n k v g = Inr g'" and "k \<noteq> key"
  shows "no_attr key g'"
proof -
  obtain d where d: "map_of (g_node g) n = Some d"
    and g': "g' = g\<lparr>g_node := AList.update n (AList.update k v d) (g_node g)\<rparr>"
    using set_node_attr_Inr [OF assms(2)] by blast
  have "key \<notin> keys (AList.update k v d)"
    using no_attr_map_of [OF assms(1) d] assms(3) by (simp add: keys_update)
  then show ?thesis
    unfolding g' using assms(1) by (rule no_attr_update [rotated])
qed

section \<open>Lemmas on the keys the record decoder produces\<close>

lemma keys_cgr_atom_dat:
  "cgr_atom_dat ops v c = Inr (Some d) \<Longrightarrow> keys d \<subseteq> atom_keys \<and> ''isotope'' \<notin> keys d"
  by (auto simp: cgr_atom_dat_def ebind_Inr_iff Let_def keys_Cons keys_Nil atom_keys_def
      split: list.splits if_splits)

lemma shift_cgr_atom_dat:
  "cgr_atom_dat ops v c = Inr (Some d) \<Longrightarrow> is_shift d \<or> no_shift d"
  by (auto simp: cgr_atom_dat_def ebind_Inr_iff Let_def keys_Cons keys_Nil is_shift_def no_shift_def
      split: list.splits if_splits)

lemma keys_parsedyn:
  "parsedyn name v = Inr (Some d) \<Longrightarrow> keys d \<subseteq> {''s_'' @ name, ''p_'' @ name, ''sp_'' @ name}"
  by (auto simp: parsedyn_def ebind_Inr_iff marks_def Let_def keys_Cons keys_Nil keys_append
      split: if_splits)

lemma keys_parselist:
  "parselist name v = Inr (Some d) \<Longrightarrow> keys d \<subseteq> {''s_'' @ name, ''p_'' @ name, ''sp_'' @ name}"
  by (auto simp: parselist_def ebind_Inr_iff marks_def fromkeys_def Let_def keys_Cons keys_Nil
      split: if_splits)

lemma keys_marks:
  assumes "name \<in> {''bond'', ''hyb'', ''neighbors''}"
    and "keys d \<subseteq> {''s_'' @ name, ''p_'' @ name, ''sp_'' @ name}"
  shows "keys d \<subseteq> atom_keys \<and> ''isotope'' \<notin> keys d \<and> no_shift d"
proof -
  have "{''s_'' @ name, ''p_'' @ name, ''sp_'' @ name}
          \<subseteq> atom_keys - {''isotope'', ''p_x'', ''p_y'', ''p_z''}"
    using assms(1) by (auto simp: atom_keys_def)
  then show ?thesis using assms(2) unfolding no_shift_def by blast
qed

lemma keys_str_parsedyn:
  assumes "ebind (the_str v) (parsedyn name) = Inr (Some d)" and "name \<in> {''bond'', ''hyb'', ''neighbors''}"
  shows "keys d \<subseteq> atom_keys \<and> ''isotope'' \<notin> keys d \<and> no_shift d"
proof -
  obtain x where "parsedyn name x = Inr (Some d)"
    using assms(1) by (auto simp: ebind_Inr_iff)
  then show ?thesis using keys_parsedyn keys_marks [OF assms(2)] by blast
qed

lemma keys_str_parselist:
  assumes "ebind (the_str v) (parselist name) = Inr (Some d)" and "name \<in> {''bond'', ''hyb'', ''neighbors''}"
  shows "keys d \<subseteq> atom_keys \<and> ''isotope'' \<notin> keys d \<and> no_shift d"
proof -
  obtain x where "parselist name x = Inr (Some d)"
    using assms(1) by (auto simp: ebind_Inr_iff)
  then show ?thesis using keys_parselist keys_marks [OF assms(2)] by blast
qed

lemma keys_cgr_dat:
  assumes "cgr_dat ms t v = Inr (Some d)"
  shows "keys d \<subseteq> atom_keys \<and> (t \<noteq> ''isotope'' \<longrightarrow> ''isotope'' \<notin> keys d) \<and> no_shift d"
proof -
  consider "t = ''dynbond''" | "t = ''extrabond''" | "t = ''atomlist''" | "t = ''atomnotlist''"
    | "t = ''atomhyb''" | "t = ''atomneighbors''" | "t = ''dynatomhyb''" | "t = ''dynatomneighbors''"
    | "t = ''isotope''"
    | "t \<notin> set [''dynbond'', ''extrabond'', ''atomlist'', ''atomnotlist'', ''atomhyb'',
         ''atomneighbors'', ''dynatomhyb'', ''dynatomneighbors'', ''isotope'']"
    by auto
  then show ?thesis
  proof cases
    case 1
    then show ?thesis using assms keys_str_parsedyn [of v "''bond''" d] by (simp add: cgr_dat_def)
  next
    case 2
    then show ?thesis using assms keys_str_parselist [of v "''bond''" d] by (simp add: cgr_dat_def)
  next
    case 3
    then show ?thesis using assms by (auto simp: cgr_dat_def atom_keys_def no_shift_def keys_Cons keys_Nil)
  next
    case 4
    then show ?thesis using assms by (auto simp: cgr_dat_def atom_keys_def no_shift_def keys_Cons keys_Nil)
  next
    case 5
    then show ?thesis using assms keys_str_parselist [of v "''hyb''" d] by (simp add: cgr_dat_def)
  next
    case 6
    then show ?thesis using assms keys_str_parselist [of v "''neighbors''" d] by (simp add: cgr_dat_def)
  next
    case 7
    then show ?thesis using assms keys_str_parsedyn [of v "''hyb''" d] by (simp add: cgr_dat_def)
  next
    case 8
    then show ?thesis using assms keys_str_parsedyn [of v "''neighbors''" d] by (simp add: cgr_dat_def)
  next
    case 9
    then show ?thesis using assms
      by (auto simp: cgr_dat_def atom_keys_def no_shift_def ebind_Inr_iff Let_def keys_Cons keys_Nil
          split: if_splits)
  next
    case 10
    then show ?thesis using assms by (simp add: cgr_dat_def)
  qed
qed

lemma keys_dynatom_value:
  assumes "dynatom_value ops v c = Inr (Some d)"
  shows "keys d \<subseteq> atom_keys \<and> ''isotope'' \<notin> keys d \<and> (is_shift d \<or> no_shift d)"
proof (cases v)
  case (Str s)
  then show ?thesis
    using assms keys_cgr_atom_dat [of ops s c d] shift_cgr_atom_dat [of ops s c d]
    by (simp add: dynatom_value_def)
next
  case (Strs xs)
  then show ?thesis using assms by (simp add: dynatom_value_def split: list.splits if_splits)
qed

section \<open>Lemmas on the record loop\<close>

lemma tab_ok_setdefault_update:
  assumes "tab_ok ta" and "keys d \<subseteq> atom_keys" and "is_shift d \<or> no_shift d"
  shows "tab_ok (setdefault_update a d ta)"
proof -
  define d0 where "d0 = (case map_of ta a of None \<Rightarrow> [] | Some x \<Rightarrow> x)"
  have d0: "keys d0 \<subseteq> atom_keys" "shift_ok d0"
    using assms(1) by (cases "map_of ta a"; simp add: d0_def tab_ok_def keys_Nil shift_ok_Nil)+
  have "keys (update_all d d0) \<subseteq> atom_keys"
    using d0(1) assms(2) by (simp add: keys_update_all)
  moreover have "shift_ok (update_all d d0)"
    using d0(2) assms(3) by (rule shift_ok_update_all)
  ultimately show ?thesis
    using assms(1) unfolding setdefault_update_def d0_def [symmetric]
    by (simp add: tab_ok_def update_conv')
qed

text \<open>What one record does to the atom table.\<close>

lemma cgr_dat_step_cases:
  assumes "cgr_dat_step ops ms atoms r (ta, tb) = Inr (ta', tb')"
  shows "ta' = ta \<or> (\<exists>a d. py_index (rec_atoms r) 0 = Inr a \<and> ta' = setdefault_update a d ta
            \<and> keys d \<subseteq> atom_keys
            \<and> (rec_type r \<noteq> ''isotope'' \<longrightarrow> ''isotope'' \<notin> keys d)
            \<and> (is_shift d \<or> no_shift d))"
proof (cases "rec_type r = ''dynatom''")
  case True
  then have "\<exists>a c d. py_index (rec_atoms r) 0 = Inr a
    \<and> dynatom_value ops (rec_value r) c = Inr (Some d) \<and> ta' = setdefault_update a d ta"
    using assms by (auto simp: cgr_dat_step_def ebind_Inr_iff split: option.splits)
  then show ?thesis using keys_dynatom_value by blast
next
  case False
  then obtain val where v: "cgr_dat ms (rec_type r) (rec_value r) = Inr val"
    using assms by (auto simp: cgr_dat_step_def ebind_Inr_iff)
  show ?thesis
  proof (cases val)
    case None
    then show ?thesis using assms False v by (simp add: cgr_dat_step_def)
  next
    case (Some d)
    then have "ta' = ta \<or> (\<exists>a. py_index (rec_atoms r) 0 = Inr a \<and> ta' = setdefault_update a d ta)"
      using assms False v
      by (auto simp: cgr_dat_step_def ebind_Inr_iff split: if_splits list.splits)
    then show ?thesis using keys_cgr_dat [of ms "rec_type r" "rec_value r" d] v Some by blast
  qed
qed

lemma tab_ok_step:
  assumes "tab_ok (fst st)" and "cgr_dat_step ops ms atoms r st = Inr st'"
  shows "tab_ok (fst st')"
  using cgr_dat_step_cases [of ops ms atoms r "fst st" "snd st" "fst st'" "snd st'"] assms
    tab_ok_setdefault_update by auto

lemma tab_ok_tables:
  assumes "tables ops ms mol = Inr (ta, tb)"
  shows "tab_ok ta"
proof -
  have "tab_ok (fst (ta, tb))"
    using assms unfolding tables_def
  proof (rule efold_invariant [where P = "\<lambda>s. tab_ok (fst s)"])
    show "tab_ok (fst ([], []))" by (simp add: tab_ok_def)
  qed (rule tab_ok_step)
  then show ?thesis by simp
qed

section \<open>Lemmas on the atom loop\<close>

lemma merge_atom_dat_cases:
  assumes "merge_atom_dat ops l dat0 = Inr dat2"
  shows "\<exists>dat1. (dat1 = dat0 \<or> dat1 = update_all [(''s_charge'', PInt (l_charge l)),
                       (''p_charge'', PInt (l_charge l)), (''sp_charge'', PInt (l_charge l))] dat0)
          \<and> ((\<exists>a b c. dat2 = AList.update ''p_z'' c (AList.update ''p_y'' b (AList.update ''p_x'' a dat1)))
             \<or> dat2 = update_all [(''p_x'', PFloat (l_x l)), (''p_y'', PFloat (l_y l)),
                                   (''p_z'', PFloat (l_z l))] dat1)"
proof -
  define dat1 where "dat1 = (if ''sp_charge'' \<in> keys dat0 then dat0
               else update_all [(''s_charge'', PInt (l_charge l)), (''p_charge'', PInt (l_charge l)),
                                (''sp_charge'', PInt (l_charge l))] dat0)"
  have "(\<exists>a b c. dat2 = AList.update ''p_z'' c (AList.update ''p_y'' b (AList.update ''p_x'' a dat1)))
        \<or> dat2 = update_all [(''p_x'', PFloat (l_x l)), (''p_y'', PFloat (l_y l)), (''p_z'', PFloat (l_z l))] dat1"
  proof (cases "''p_x'' \<in> keys dat1")
    case True
    then show ?thesis
      using assms unfolding merge_atom_dat_def Let_def dat1_def [symmetric]
      by (simp add: ebind_Inr_iff) blast
  next
    case False
    then show ?thesis
      using assms unfolding merge_atom_dat_def Let_def dat1_def [symmetric] by simp
  qed
  moreover have "dat1 = dat0 \<or> dat1 = update_all [(''s_charge'', PInt (l_charge l)),
                       (''p_charge'', PInt (l_charge l)), (''sp_charge'', PInt (l_charge l))] dat0"
    by (simp add: dat1_def)
  ultimately show ?thesis by blast
qed

lemma keys_merge_atom_dat:
  assumes "merge_atom_dat ops l dat0 = Inr dat2"
  shows "keys dat2 \<subseteq> keys dat0 \<union> {''s_charge'', ''p_charge'', ''sp_charge'', ''p_x'', ''p_y'', ''p_z''}"
proof -
  obtain dat1 where d1: "dat1 = dat0 \<or> dat1 = update_all [(''s_charge'', PInt (l_charge l)),
                       (''p_charge'', PInt (l_charge l)), (''sp_charge'', PInt (l_charge l))] dat0"
    and d2: "(\<exists>a b c. dat2 = AList.update ''p_z'' c (AList.update ''p_y'' b (AList.update ''p_x'' a dat1)))
             \<or> dat2 = update_all [(''p_x'', PFloat (l_x l)), (''p_y'', PFloat (l_y l)),
                                   (''p_z'', PFloat (l_z l))] dat1"
    using merge_atom_dat_cases [OF assms] by blast
  have k1: "keys dat1 \<subseteq> keys dat0 \<union> {''s_charge'', ''p_charge'', ''sp_charge''}"
    using d1 by (elim disjE) (simp_all add: keys_update_all keys_Cons keys_Nil, blast+)
  have k2: "keys dat2 \<subseteq> keys dat1 \<union> {''p_x'', ''p_y'', ''p_z''}"
    using d2 by (elim disjE exE) (simp_all add: keys_update keys_update_all keys_Cons keys_Nil, blast+)
  show ?thesis using k1 k2 by blast
qed

text \<open>
  The merged product z-coordinate is the one the specification describes: the shift of the
  entry plus the legacy z-coordinate, or the legacy z-coordinate when there is no shift.
\<close>

lemma merge_atom_dat_p_z:
  assumes "merge_atom_dat ops l dat0 = Inr dat2" and "shift_ok dat0"
  shows "map_of dat2 ''p_z'' = Some (PFloat (product_z ops dat0 l))"
proof -
  define dat1 where "dat1 = (if ''sp_charge'' \<in> keys dat0 then dat0
               else update_all [(''s_charge'', PInt (l_charge l)), (''p_charge'', PInt (l_charge l)),
                                (''sp_charge'', PInt (l_charge l))] dat0)"
  have same: "map_of dat1 k = map_of dat0 k" if "k \<in> {''p_x'', ''p_y'', ''p_z''}" for k
  proof -
    have "k \<notin> keys [(''s_charge'', PInt (l_charge l)), (''p_charge'', PInt (l_charge l)),
                      (''sp_charge'', PInt (l_charge l))]"
      using that by (auto simp: keys_Cons keys_Nil)
    then show ?thesis by (simp add: dat1_def map_of_update_all_notin)
  qed
  show ?thesis
  proof (cases "''p_x'' \<in> keys dat1")
    case True
    then have "map_of dat0 ''p_x'' \<noteq> None"
      using same [of "''p_x''"] keys_map_of_None [of dat1 "''p_x''"] by simp
    then obtain x y z where xyz: "map_of dat0 ''p_x'' = Some (PFloat x)"
      "map_of dat0 ''p_y'' = Some (PFloat y)" "map_of dat0 ''p_z'' = Some (PFloat z)"
      using assms(2) by (auto simp: shift_ok_def)
    then have l: "lookup dat1 ''p_x'' = Inr (PFloat x)" "lookup dat1 ''p_y'' = Inr (PFloat y)"
      "lookup dat1 ''p_z'' = Inr (PFloat z)"
      using same by (simp_all add: lookup_Inr_iff)
    have "dat2 = AList.update ''p_z'' (PFloat (f_add ops z (l_z l)))
                   (AList.update ''p_y'' (PFloat (f_add ops y (l_y l)))
                     (AList.update ''p_x'' (PFloat (f_add ops x (l_x l))) dat1))"
      using assms(1) True unfolding merge_atom_dat_def Let_def dat1_def [symmetric]
      by (simp add: l add_float_def)
    then show ?thesis
      by (simp add: update_conv' product_z_def xyz)
  next
    case False
    then have "map_of dat0 ''p_x'' = None"
      using same [of "''p_x''"] keys_map_of_None [of dat1 "''p_x''"] by simp
    then have z: "map_of dat0 ''p_z'' = None"
      using assms(2) by (auto simp: shift_ok_def)
    have "dat2 = update_all [(''p_x'', PFloat (l_x l)), (''p_y'', PFloat (l_y l)),
                             (''p_z'', PFloat (l_z l))] dat1"
      using assms(1) False unfolding merge_atom_dat_def Let_def dat1_def [symmetric] by simp
    then show ?thesis
      by (simp add: update_all_def update_conv' product_z_def z)
  qed
qed

lemma float_nonzero_iff: "float_nonzero a \<longleftrightarrow> a \<noteq> Finite 0"
  by (cases a) (simp_all add: float_nonzero_def)

lemma low_product_z_iff:
  "low_product_z ops ta kl \<longleftrightarrow>
     (\<exists>dat. map_of ta (fst kl) = Some dat
        \<and> float_lt (product_z ops dat (snd kl)) (Finite (7378697629483821 / 2 ^ 66)))"
  by (cases "map_of ta (fst kl)") (simp_all add: low_product_z_def)

lemma dz_not_atom_key: "key \<in> {''s_dz'', ''p_dz''} \<Longrightarrow> key \<notin> atom_keys"
  by (auto simp: atom_keys_def)

lemma add_atom_node_None:
  assumes "add_atom_node ops ta atom_map (k, l) st = Inr st'" and "map_of ta k = None"
  shows "st' = st\<lparr>graph := add_node atom_map
                 [(''mark'', PStr (l_mark l)), (''s_x'', PFloat (l_x l)), (''s_y'', PFloat (l_y l)),
                  (''s_z'', PFloat (l_z l)), (''p_x'', PFloat (l_x l)), (''p_y'', PFloat (l_y l)),
                  (''p_z'', PFloat (l_z l)), (''s_charge'', PInt (l_charge l)),
                  (''p_charge'', PInt (l_charge l)), (''sp_charge'', PInt (l_charge l))]
                 (graph st)\<rparr>"
  using assms by (simp add: add_atom_node_def)

lemma add_atom_node_Some:
  assumes "add_atom_node ops ta atom_map (k, l) st = Inr st'" and "map_of ta k = Some dat0"
  shows "\<exists>dat2 pz b dz'. merge_atom_dat ops l dat0 = Inr dat2
           \<and> map_of dat2 ''p_z'' = Some pz \<and> below pz (Finite (7378697629483821 / 2 ^ 66)) = Inr b
           \<and> st' = st\<lparr>graph := add_node atom_map
                       ([(''mark'', PStr (l_mark l)), (''s_x'', PFloat (l_x l)),
                         (''s_y'', PFloat (l_y l)), (''s_z'', PFloat (l_z l))] @ AList.delete ''dz'' dat2)
                       (graph st),
                     atom_dz := dz',
                     mdl_p_stereo := (if b then False else mdl_p_stereo st)\<rparr>"
proof -
  have "\<exists>dat2. merge_atom_dat ops l dat0 = Inr dat2
     \<and> (\<exists>pz. lookup (AList.delete ''dz'' dat2) ''p_z'' = Inr pz
     \<and> (\<exists>b. below pz (Finite (7378697629483821 / 2 ^ 66)) = Inr b
     \<and> Inr (st\<lparr>graph := add_node atom_map
                       ([(''mark'', PStr (l_mark l)), (''s_x'', PFloat (l_x l)),
                         (''s_y'', PFloat (l_y l)), (''s_z'', PFloat (l_z l))] @ AList.delete ''dz'' dat2)
                       (graph st),
                     atom_dz := (case map_of dat2 ''dz'' of
                         Some dz \<Rightarrow> AList.update atom_map dz (atom_dz st)
                       | None \<Rightarrow> atom_dz st),
                     mdl_p_stereo := (if b then False else mdl_p_stereo st)\<rparr>) = (Inr st' :: error + asm_state)))"
    using assms unfolding add_atom_node_def
    by (simp only: prod.case option.case ebind_Inr_iff Let_def)
  then obtain dat2 pz b where m: "merge_atom_dat ops l dat0 = Inr dat2"
    and pz: "lookup (AList.delete ''dz'' dat2) ''p_z'' = Inr pz" "below pz (Finite (7378697629483821 / 2 ^ 66)) = Inr b"
    and st': "st' = st\<lparr>graph := add_node atom_map
                       ([(''mark'', PStr (l_mark l)), (''s_x'', PFloat (l_x l)),
                         (''s_y'', PFloat (l_y l)), (''s_z'', PFloat (l_z l))] @ AList.delete ''dz'' dat2)
                       (graph st),
                     atom_dz := (case map_of dat2 ''dz'' of
                         Some dz \<Rightarrow> AList.update atom_map dz (atom_dz st)
                       | None \<Rightarrow> atom_dz st),
                     mdl_p_stereo := (if b then False else mdl_p_stereo st)\<rparr>"
    by (metis sum.inject(2))
  have "map_of dat2 ''p_z'' = Some pz"
    using pz(1) by (simp add: lookup_Inr_iff)
  then show ?thesis using m pz(2) st' by blast
qed

lemma add_atom_node_props:
  assumes "add_atom_node ops ta atom_map (k, l) st = Inr st'" and "tab_ok ta"
  shows "mdl_s_stereo st' = mdl_s_stereo st
     \<and> mdl_p_stereo st' = (mdl_p_stereo st \<and> \<not> low_product_z ops ta (k, l))
     \<and> (key \<in> {''s_dz'', ''p_dz''} \<longrightarrow> no_attr key (graph st) \<longrightarrow> no_attr key (graph st'))"
proof (cases "map_of ta k")
  case None
  have "no_attr key (graph st')" if "key \<in> {''s_dz'', ''p_dz''}" "no_attr key (graph st)"
  proof -
    have "key \<notin> keys [(''mark'', PStr (l_mark l)), (''s_x'', PFloat (l_x l)), (''s_y'', PFloat (l_y l)),
                  (''s_z'', PFloat (l_z l)), (''p_x'', PFloat (l_x l)), (''p_y'', PFloat (l_y l)),
                  (''p_z'', PFloat (l_z l)), (''s_charge'', PInt (l_charge l)),
                  (''p_charge'', PInt (l_charge l)), (''sp_charge'', PInt (l_charge l))]"
      using that(1) by (auto simp: keys_Cons keys_Nil)
    then show ?thesis
      unfolding add_atom_node_None [OF assms(1) None] using that(2) by (simp add: no_attr_add_node)
  qed
  moreover have "\<not> low_product_z ops ta (k, l)"
    by (simp add: low_product_z_def None)
  moreover have "mdl_s_stereo st' = mdl_s_stereo st" "mdl_p_stereo st' = mdl_p_stereo st"
    by (simp_all add: add_atom_node_None [OF assms(1) None])
  ultimately show ?thesis by blast
next
  case (Some dat0)
  obtain dat2 pz b dz' where m: "merge_atom_dat ops l dat0 = Inr dat2"
    and pz: "map_of dat2 ''p_z'' = Some pz" "below pz (Finite (7378697629483821 / 2 ^ 66)) = Inr b"
    and st': "st' = st\<lparr>graph := add_node atom_map
                     ([(''mark'', PStr (l_mark l)), (''s_x'', PFloat (l_x l)),
                       (''s_y'', PFloat (l_y l)), (''s_z'', PFloat (l_z l))] @ AList.delete ''dz'' dat2)
                     (graph st),
                   atom_dz := dz',
                   mdl_p_stereo := (if b then False else mdl_p_stereo st)\<rparr>"
    using add_atom_node_Some [OF assms(1) Some] by blast
  have "shift_ok dat0" using assms(2) Some by (simp add: tab_ok_def)
  then have "pz = PFloat (product_z ops dat0 l)"
    using merge_atom_dat_p_z [OF m] pz(1) by simp
  then have lp: "low_product_z ops ta (k, l) = b"
    using Some pz(2) by (simp add: low_product_z_def below_def)
  have "no_attr key (graph st')" if key: "key \<in> {''s_dz'', ''p_dz''}" and na: "no_attr key (graph st)"
  proof -
    have "keys dat0 \<subseteq> atom_keys" using assms(2) Some by (simp add: tab_ok_def)
    moreover have "key \<notin> atom_keys" using key by (rule dz_not_atom_key)
    moreover have "key \<notin> {''s_charge'', ''p_charge'', ''sp_charge'', ''p_x'', ''p_y'', ''p_z''}"
      using key by auto
    ultimately have "key \<notin> keys dat2"
      using keys_merge_atom_dat [OF m] by blast
    then have "key \<notin> keys (AList.delete ''dz'' dat2)"
      using keys_delete [of "''dz''" dat2] by blast
    moreover have "key \<notin> keys [(''mark'', PStr (l_mark l)), (''s_x'', PFloat (l_x l)),
                       (''s_y'', PFloat (l_y l)), (''s_z'', PFloat (l_z l))]"
      using key by (auto simp: keys_Cons keys_Nil)
    ultimately have "key \<notin> keys ([(''mark'', PStr (l_mark l)), (''s_x'', PFloat (l_x l)),
                       (''s_y'', PFloat (l_y l)), (''s_z'', PFloat (l_z l))] @ AList.delete ''dz'' dat2)"
      unfolding keys_append by blast
    then show ?thesis unfolding st' using na by (simp add: no_attr_add_node)
  qed
  moreover have "mdl_s_stereo st' = mdl_s_stereo st"
    "mdl_p_stereo st' = (mdl_p_stereo st \<and> \<not> b)"
    by (simp_all add: st')
  ultimately show ?thesis using lp by blast
qed

lemma set_legacy_element_cases:
  assumes "set_legacy_element atom_map l g = Inr g2"
  shows "g2 = g \<or> set_node_attr atom_map ''element'' (PStr (l_element l)) g = Inr g2"
  using assms by (auto simp: set_legacy_element_def ebind_Inr_iff split: if_splits)

lemma set_legacy_isotope_cases:
  assumes "set_legacy_isotope table atom_map l g = Inr g3"
  shows "g3 = g \<or> (\<exists>i. set_node_attr atom_map ''isotope'' (PInt i) g = Inr g3)"
  using assms by (auto simp: set_legacy_isotope_def ebind_Inr_iff split: if_splits)

lemma legacy_fields_cases:
  assumes "legacy_fields table atom_map l st = Inr st'"
  shows "\<exists>g2 g3. set_legacy_element atom_map l (graph st) = Inr g2
      \<and> set_legacy_isotope table atom_map l g2 = Inr g3
      \<and> st' = st\<lparr>graph := g3, mdl_s_stereo := (if float_nonzero (l_z l) then False else mdl_s_stereo st)\<rparr>"
  using assms by (auto simp: legacy_fields_def ebind_Inr_iff)

lemma legacy_fields_props:
  assumes "legacy_fields table atom_map l st = Inr st'"
  shows "mdl_s_stereo st' = (mdl_s_stereo st \<and> \<not> float_nonzero (l_z l))
     \<and> mdl_p_stereo st' = mdl_p_stereo st
     \<and> (key \<in> {''s_dz'', ''p_dz''} \<longrightarrow> no_attr key (graph st) \<longrightarrow> no_attr key (graph st'))"
proof -
  obtain g2 g3 where
    e2: "set_legacy_element atom_map l (graph st) = Inr g2"
    and e3: "set_legacy_isotope table atom_map l g2 = Inr g3"
    and st': "st' = st\<lparr>graph := g3, mdl_s_stereo := (if float_nonzero (l_z l) then False else mdl_s_stereo st)\<rparr>"
    using legacy_fields_cases [OF assms] by blast
  note g2 = set_legacy_element_cases [OF e2] and g3 = set_legacy_isotope_cases [OF e3]
  have "no_attr key (graph st')" if key: "key \<in> {''s_dz'', ''p_dz''}" and na: "no_attr key (graph st)"
  proof -
    have k: "''element'' \<noteq> key" "''isotope'' \<noteq> key" using key by auto
    have "no_attr key g2"
      using g2 na no_attr_set_node_attr [OF na _ k(1)] by blast
    then have "no_attr key g3"
      using g3 no_attr_set_node_attr [OF _ _ k(2)] by blast
    then show ?thesis by (simp add: st')
  qed
  moreover have "mdl_s_stereo st' = (mdl_s_stereo st \<and> \<not> float_nonzero (l_z l))" "mdl_p_stereo st' = mdl_p_stereo st"
    by (simp_all add: st')
  ultimately show ?thesis by blast
qed

lemma atom_step_props:
  assumes "atom_step ops table mapping ta (k, l) st = Inr st'" and "tab_ok ta"
  shows "mdl_s_stereo st' = (mdl_s_stereo st \<and> \<not> float_nonzero (l_z l))
     \<and> mdl_p_stereo st' = (mdl_p_stereo st \<and> \<not> low_product_z ops ta (k, l))
     \<and> (key \<in> {''s_dz'', ''p_dz''} \<longrightarrow> no_attr key (graph st) \<longrightarrow> no_attr key (graph st'))"
proof -
  obtain atom_map st1 where a: "add_atom_node ops ta atom_map (k, l) st = Inr st1"
    and b: "legacy_fields table atom_map l st1 = Inr st'"
    using assms(1) by (auto simp: atom_step_def ebind_Inr_iff)
  show ?thesis
    using add_atom_node_props [OF a assms(2), of key] legacy_fields_props [OF b, of key] by blast
qed

lemma atoms_efold_props:
  assumes "efold (atom_step ops table mapping ta) xs st = Inr st'" and "tab_ok ta"
  shows "(mdl_s_stereo st' = (mdl_s_stereo st \<and> (\<forall>kl \<in> set xs. \<not> float_nonzero (l_z (snd kl)))))
       \<and> (mdl_p_stereo st' = (mdl_p_stereo st \<and> \<not> list_ex (low_product_z ops ta) xs))
       \<and> (key \<in> {''s_dz'', ''p_dz''} \<longrightarrow> no_attr key (graph st) \<longrightarrow> no_attr key (graph st'))"
  using assms(1)
proof (induction xs arbitrary: st)
  case Nil
  then show ?case by simp
next
  case (Cons x xs)
  obtain k l where x: "x = (k, l)" by (cases x)
  obtain st1 where s: "atom_step ops table mapping ta (k, l) st = Inr st1"
    and r: "efold (atom_step ops table mapping ta) xs st1 = Inr st'"
    using Cons.prems by (auto simp: ebind_Inr_iff x)
  show ?case
    using Cons.IH [OF r] atom_step_props [OF s assms(2), of key]
    by (simp add: x)
qed

section \<open>Lemmas on the bond loop\<close>


lemma seed_s_dz_props:
  assumes "seed_s_dz n v st g = Inr g'"
  shows "(\<not> mdl_s_stereo st \<longrightarrow> g' = g) \<and> (no_attr ''p_dz'' g \<longrightarrow> no_attr ''p_dz'' g')"
  using assms no_attr_set_node_attr [of "''p_dz''" g n "''s_dz''" "PInt v" g']
  by (auto simp: seed_s_dz_def split: if_splits)

lemma seed_p_dz_props:
  assumes "seed_p_dz n v st g = Inr g'"
  shows "(\<not> mdl_p_stereo st \<longrightarrow> g' = g) \<and> (no_attr ''s_dz'' g \<longrightarrow> no_attr ''s_dz'' g')"
  using assms no_attr_set_node_attr [of "''s_dz''" g n "''p_dz''" "PInt v" g']
  by (auto simp: seed_p_dz_def split: if_splits)

lemma wedge_props:
  assumes "wedge mapping l s st g = Inr g'"
  shows "(\<not> mdl_s_stereo st \<longrightarrow> no_attr ''s_dz'' g \<longrightarrow> no_attr ''s_dz'' g')
       \<and> (\<not> mdl_p_stereo st \<longrightarrow> no_attr ''p_dz'' g \<longrightarrow> no_attr ''p_dz'' g')"
proof (cases "s = 1 \<or> s = 6")
  case True
  then obtain n v g2 where a: "seed_s_dz n v st g = Inr g2" and b: "seed_p_dz n v st g2 = Inr g'"
    using assms by (auto simp: wedge_def ebind_Inr_iff)
  show ?thesis
    using seed_s_dz_props [OF a] seed_p_dz_props [OF b] by auto
next
  case False
  then show ?thesis using assms by (simp add: wedge_def)
qed

lemma bond_step_props:
  assumes "bond_step mapping tb b st = Inr st'"
  shows "mdl_s_stereo st' = mdl_s_stereo st \<and> mdl_p_stereo st' = mdl_p_stereo st
     \<and> atom_dz st' = atom_dz st
     \<and> (\<not> mdl_s_stereo st \<longrightarrow> no_attr ''s_dz'' (graph st) \<longrightarrow> no_attr ''s_dz'' (graph st'))
     \<and> (\<not> mdl_p_stereo st \<longrightarrow> no_attr ''p_dz'' (graph st) \<longrightarrow> no_attr ''p_dz'' (graph st'))"
proof -
  obtain k l m s where b: "b = (k, l, m, s)" by (cases b)
  obtain mk ml g3 where
    w: "wedge mapping l s st (add_edge mk ml (bond_attrs tb k l m) (graph st)) = Inr g3"
    and st': "st' = st\<lparr>graph := g3\<rparr>"
    using assms by (auto simp: bond_step_def b ebind_Inr_iff)
  show ?thesis
    using wedge_props [OF w] no_attr_add_edge [of _ "graph st" mk ml "bond_attrs tb k l m"]
    by (simp add: st')
qed

lemma bonds_efold_props:
  assumes "efold (bond_step mapping tb) bs st = Inr st'"
  shows "mdl_s_stereo st' = mdl_s_stereo st \<and> mdl_p_stereo st' = mdl_p_stereo st
     \<and> atom_dz st' = atom_dz st
     \<and> (\<not> mdl_s_stereo st \<longrightarrow> no_attr ''s_dz'' (graph st) \<longrightarrow> no_attr ''s_dz'' (graph st'))
     \<and> (\<not> mdl_p_stereo st \<longrightarrow> no_attr ''p_dz'' (graph st) \<longrightarrow> no_attr ''p_dz'' (graph st'))"
  using assms
proof (induction bs arbitrary: st)
  case Nil
  then show ?case by simp
next
  case (Cons b bs)
  obtain st1 where s: "bond_step mapping tb b st = Inr st1"
    and r: "efold (bond_step mapping tb) bs st1 = Inr st'"
    using Cons.prems by (auto simp: ebind_Inr_iff)
  show ?case
    using Cons.IH [OF r] bond_step_props [OF s] by simp
qed

lemma dz_efold_s_dz:
  assumes "efold dz_step xs g = Inr g'" and "no_attr ''s_dz'' g"
  shows "no_attr ''s_dz'' g'"
  using assms(1,2)
proof (rule efold_invariant)
  fix x a b
  assume a: "no_attr ''s_dz'' a" and d: "dz_step x a = Inr b"
  have "b = a \<or> (\<exists>n v. set_node_attr n ''p_dz'' v a = Inr b)"
    using d by (auto simp: dz_step_def split: prod.splits if_splits)
  then show "no_attr ''s_dz'' b"
    using a no_attr_set_node_attr [of "''s_dz''" a _ "''p_dz''" _ b] by auto
qed

lemma set_enumerate1: "snd ` set (enumerate1 xs) = set xs"
proof -
  have "length (map int [1..<Suc (length xs)]) = length xs"
    by (simp del: upt_Suc)
  then have "map snd (enumerate1 xs) = xs"
    unfolding enumerate1_def by (rule map_snd_zip)
  then have "set (map snd (enumerate1 xs)) = set xs" by simp
  then show ?thesis by simp
qed

lemma no_attr_empty: "no_attr key \<lparr>g_node = [], g_edge = []\<rparr>"
  by (simp add: no_attr_def)

section \<open>Lemmas on the classification reset\<close>

lemma hyb_scan_snoc: "hyb_scan (os @ [ord]) = hyb_step (hyb_scan os) ord"
  by (simp add: hyb_scan_def)

lemma hyb_step_range: "h \<in> {1, 2, 3, 4} \<Longrightarrow> hyb_step h ord \<in> {1, 2, 3, 4} \<and> h \<le> hyb_step h ord"
  by (auto simp: hyb_step_def)

lemma hyb_scan_range: "hyb_scan os \<in> {1, 2, 3, 4}"
proof (induction os rule: rev_induct)
  case Nil
  then show ?case by (simp add: hyb_scan_def)
next
  case (snoc x xs)
  then show ?case using hyb_step_range [of "hyb_scan xs" x] by (simp add: hyb_scan_snoc)
qed

lemma hyb_step_fixed: "h \<in> {3, 4} \<Longrightarrow> hyb_step h ord = h"
  by (auto simp: hyb_step_def)

lemma hyb_scan_fixed: "hyb_scan os \<in> {3, 4} \<Longrightarrow> hyb_scan (os @ os') = hyb_scan os"
proof (induction os' rule: rev_induct)
  case Nil
  then show ?case by simp
next
  case (snoc x xs)
  then have "hyb_scan ((os @ xs) @ [x]) = hyb_step (hyb_scan os) x"
    by (simp only: hyb_scan_snoc)
  then show ?case using snoc.prems hyb_step_fixed [of "hyb_scan os" x] by simp
qed

lemma mark_step_Inr:
  assumes "mark_step g x (n, h, pn, ph) = Inr s1"
  shows "\<exists>isnth. s1 = (nb_step isnth n (b_order (snd x)), hyb_step h (b_order (snd x)),
       nb_step isnth pn (b_p_order (snd x)), hyb_step ph (b_p_order (snd x)))"
  using assms by (auto simp: mark_step_def ebind_Inr_iff)

lemma marks_efold:
  assumes "efold (mark_step g) xs (n, h, pn, ph) = Inr (n', h', pn', ph')"
  shows "h' = foldl hyb_step h (map (\<lambda>jb. b_order (snd jb)) xs)
       \<and> ph' = foldl hyb_step ph (map (\<lambda>jb. b_p_order (snd jb)) xs)"
  using assms
proof (induction xs arbitrary: n h pn ph)
  case Nil
  then show ?case by simp
next
  case (Cons x xs)
  obtain s1 where a: "mark_step g x (n, h, pn, ph) = Inr s1"
    and b: "efold (mark_step g) xs s1 = Inr (n', h', pn', ph')"
    using Cons.prems by (simp add: ebind_Inr_iff) blast
  obtain isnth where "s1 = (nb_step isnth n (b_order (snd x)), hyb_step h (b_order (snd x)),
       nb_step isnth pn (b_p_order (snd x)), hyb_step ph (b_p_order (snd x)))"
    using mark_step_Inr [OF a] by blast
  then show ?case using Cons.IH [of _ _ _ _] b by simp
qed

lemma emap_member:
  assumes "emap f xs = Inr ys" and "y \<in> set ys"
  shows "\<exists>x \<in> set xs. f x = Inr y"
  using assms
proof (induction xs arbitrary: ys)
  case Nil
  then show ?case by simp
next
  case (Cons x xs)
  then obtain z zs where "f x = Inr z" "emap f xs = Inr zs" "ys = z # zs"
    by (auto simp: ebind_Inr_iff)
  then show ?case using Cons.IH [of zs] Cons.prems(2) by auto
qed

lemma emap_total:
  assumes "\<And>x. x \<in> set xs \<Longrightarrow> \<exists>y. f x = Inr y"
  shows "\<exists>ys. emap f xs = Inr ys"
  using assms
proof (induction xs)
  case Nil
  then show ?case by simp
next
  case (Cons x xs)
  obtain y where "f x = Inr y" using Cons.prems [of x] by auto
  moreover obtain ys where "emap f xs = Inr ys" using Cons by auto
  ultimately show ?case by simp
qed

lemma efold_total:
  assumes "\<And>x s. x \<in> set xs \<Longrightarrow> \<exists>s'. f x s = Inr s'"
  shows "\<exists>s'. efold f xs s = Inr s'"
  using assms
proof (induction xs arbitrary: s)
  case Nil
  then show ?case by simp
next
  case (Cons x xs)
  obtain s1 where "f x s = Inr s1" using Cons.prems [of x s] by auto
  moreover obtain s2 where "efold f xs s1 = Inr s2" using Cons.IH [of s1] Cons.prems by auto
  ultimately show ?case by simp
qed

lemma marked_nodes_hyb:
  assumes "marked_nodes g = Inr ns" and "(i, atom) \<in> set ns"
  shows "a_hybridization atom = Some (hyb_scan (map (\<lambda>jb. b_order (snd jb)) (adj g i)))
       \<and> a_p_hybridization atom = Some (hyb_scan (map (\<lambda>jb. b_p_order (snd jb)) (adj g i)))"
proof -
  obtain x where x: "x \<in> set (cgr_nodes g)"
    and fx: "(case x of (i, atom) \<Rightarrow> ebind (atom_marks g i) (\<lambda>mks. Inr (i, set_marks atom mks))) = Inr (i, atom)"
    using emap_member [OF assms [unfolded marked_nodes_def]] by blast
  obtain j a where xa: "x = (j, a)" by (cases x)
  obtain mks where m: "atom_marks g i = Inr mks" and a: "atom = set_marks a mks"
    using fx by (auto simp: xa ebind_Inr_iff)
  obtain n h pn ph where mk: "mks = (n, h, pn, ph)" by (cases mks)
  show ?thesis
    using marks_efold [OF m [unfolded atom_marks_def mk]]
    by (simp add: a mk set_marks_def hyb_scan_def)
qed

lemma adj_member: "(j, b) \<in> set (adj g i) \<Longrightarrow> \<exists>u v. (u, v, b) \<in> set (cgr_edges g) \<and> (j = u \<or> j = v)"
  by (auto simp: adj_def split: if_splits)

lemma atom_marks_total:
  assumes "ends_ok g"
  shows "\<exists>mks. atom_marks g i = Inr mks"
  unfolding atom_marks_def
proof (rule efold_total)
  fix x s assume "x \<in> set (adj g i)"
  then obtain u v where "(u, v, snd x) \<in> set (cgr_edges g)" "fst x = u \<or> fst x = v"
    using adj_member [of "fst x" "snd x" g i] by auto
  then have "fst x \<in> keys (cgr_nodes g)"
    using assms by (auto simp: ends_ok_def list_all_iff)
  then obtain a where "map_of (cgr_nodes g) (fst x) = Some a"
    using keys_map_of_None [of "cgr_nodes g" "fst x"] by auto
  then show "\<exists>s'. mark_step g x s = Inr s'"
    by (cases s) (simp add: mark_step_def is_not_h_def lookup_def)
qed

lemma marked_nodes_total:
  assumes "ends_ok g"
  shows "\<exists>ns. marked_nodes g = Inr ns"
  unfolding marked_nodes_def
proof (rule emap_total)
  fix x :: "int \<times> 'a dyn_atom"
  obtain i a where "x = (i, a)" by (cases x)
  then show "\<exists>y. (case x of (i, atom) \<Rightarrow> ebind (atom_marks g i) (\<lambda>mks. Inr (i, set_marks atom mks))) = Inr y"
    using atom_marks_total [OF assms, of i] by auto
qed

lemma marked_nodes_cache: "marked_nodes (g\<lparr>cgr_cache := c\<rparr>) = marked_nodes g"
proof -
  have a: "adj (g\<lparr>cgr_cache := c\<rparr>) = adj g" by (simp add: adj_def fun_eq_iff)
  have m: "mark_step (g\<lparr>cgr_cache := c\<rparr>) = mark_step g"
    by (simp add: mark_step_def is_not_h_def fun_eq_iff)
  have "atom_marks (g\<lparr>cgr_cache := c\<rparr>) i = atom_marks g i" for i
    by (simp only: atom_marks_def a m)
  then show ?thesis by (simp add: marked_nodes_def)
qed

lemma reset_query_marks_cases:
  assumes "reset_query_marks cp g = Inr (self', ret)"
  shows "\<exists>ns. marked_nodes g = Inr ns
     \<and> (if cp then self' = g \<and> ret = Some (g\<lparr>cgr_nodes := ns, cgr_cache := None\<rparr>)
        else self' = g\<lparr>cgr_nodes := ns, cgr_cache := None\<rparr> \<and> ret = None)"
  using assms
  by (auto simp: reset_query_marks_def copy_def flush_cache_def marked_nodes_cache ebind_Inr_iff Let_def
      split: if_splits)


section \<open>Lemmas on the reaction centre\<close>

lemma set_insert_fold_nodes:
  "set (fold (\<lambda>(n, atom) nodes. if P atom then List.insert n nodes else nodes) xs acc)
     = set acc \<union> {n. \<exists>atom. (n, atom) \<in> set xs \<and> P atom}"
  by (induction xs arbitrary: acc) (auto split: prod.splits)

lemma distinct_insert_fold_nodes:
  "distinct acc \<Longrightarrow> distinct (fold (\<lambda>(n, atom) nodes. if P atom then List.insert n nodes else nodes) xs acc)"
  by (induction xs arbitrary: acc) (auto split: prod.splits)

lemma set_insert_fold_edges:
  "set (fold (\<lambda>(n, m, bond) nodes. if P bond then List.insert m (List.insert n nodes) else nodes) xs acc)
     = set acc \<union> {x. \<exists>n m bond. (n, m, bond) \<in> set xs \<and> (x = n \<or> x = m) \<and> P bond}"
proof (induction xs arbitrary: acc)
  case Nil
  then show ?case by simp
next
  case (Cons e xs)
  obtain n m bond where e: "e = (n, m, bond)" by (cases e)
  show ?case
    unfolding e by (simp add: Cons.IH) blast
qed

lemma distinct_insert_fold_edges:
  "distinct acc \<Longrightarrow>
   distinct (fold (\<lambda>(n, m, bond) nodes. if P bond then List.insert m (List.insert n nodes) else nodes) xs acc)"
  by (induction xs arbitrary: acc) (auto split: prod.splits)

lemma fold_nodes_none:
  "\<forall>(n, atom) \<in> set xs. \<not> P atom \<Longrightarrow>
   fold (\<lambda>(n, atom) nodes. if P atom then List.insert n nodes else nodes) xs acc = acc"
  by (induction xs arbitrary: acc) (auto split: prod.splits)

lemma fold_edges_none:
  "\<forall>(n, m, bond) \<in> set xs. \<not> P bond \<Longrightarrow>
   fold (\<lambda>(n, m, bond) nodes. if P bond then List.insert m (List.insert n nodes) else nodes) xs acc = acc"
  by (induction xs arbitrary: acc) (auto split: prod.splits)

section \<open>Lemmas on the decomposition\<close>

lemma update_absent: "k \<notin> keys al \<Longrightarrow> AList.update k v al = al @ [(k, v)]"
  by (induction al) (auto simp: keys_Cons)

lemma fold_mol_add_node:
  assumes "distinct (map fst ys)" and "keys ys \<inter> keys (mol_nodes g) = {}"
  shows "fold mol_add_node ys g = g\<lparr>mol_nodes := mol_nodes g @ ys\<rparr>"
  using assms
proof (induction ys arbitrary: g)
  case Nil
  then show ?case by simp
next
  case (Cons y ys)
  have a: "fst y \<notin> keys (mol_nodes g)" using Cons.prems(2) by (auto simp: keys_Cons)
  have s: "mol_add_node y g = g\<lparr>mol_nodes := mol_nodes g @ [y]\<rparr>"
    by (simp add: mol_add_node_def update_absent [OF a])
  have "keys ys \<inter> keys (mol_nodes (mol_add_node y g)) = {}"
    using Cons.prems by (auto simp: s keys_append keys_Cons keys_Nil keys_def)
  then show ?case
    using Cons.IH [of "mol_add_node y g"] Cons.prems(1) by (simp add: s)
qed

lemma unordered_pair_iff:
  "((a = n \<and> b = m) \<or> (a = m \<and> b = n)) \<longleftrightarrow> (min a b = min n m \<and> max a b = max n m)"
  for a b n m :: int
  unfolding min_def max_def by (cases "a \<le> b"; cases "n \<le> m") auto

lemma same_pair_iff:
  "same_pair n m e \<longleftrightarrow> (min (fst e) (fst (snd e)), max (fst e) (fst (snd e))) = (min n m, max n m)"
  unfolding same_pair_def prod.inject by (rule unordered_pair_iff)

lemma mol_add_edge_new:
  assumes "n \<in> keys (mol_nodes g)" and "m \<in> keys (mol_nodes g)"
    and "(min n m, max n m) \<notin> (\<lambda>e. (min (fst e) (fst (snd e)), max (fst e) (fst (snd e)))) ` set (mol_edges g)"
  shows "mol_add_edge dflt (n, m, b) g = g\<lparr>mol_edges := mol_edges g @ [(n, m, b)]\<rparr>"
proof -
  have "\<not> same_pair n m e" if "e \<in> set (mol_edges g)" for e
  proof
    assume "same_pair n m e"
    then have "(min n m, max n m) = (min (fst e) (fst (snd e)), max (fst e) (fst (snd e)))"
      by (simp add: same_pair_iff)
    then have "(min n m, max n m)
        \<in> (\<lambda>e. (min (fst e) (fst (snd e)), max (fst e) (fst (snd e)))) ` set (mol_edges g)"
      using that by (rule image_eqI)
    then show False using assms(3) by contradiction
  qed
  then have l: "list_ex (same_pair n m) (mol_edges g) = False"
    by (simp add: list_ex_iff)
  have k: "(n \<in> keys (mol_nodes g)) = True" "(m \<in> keys (mol_nodes g)) = True"
    using assms(1,2) by simp_all
  show ?thesis
    unfolding mol_add_edge_def prod.case Let_def l k if_True if_False by simp
qed


lemma fold_mol_add_edge:
  assumes "simple_edges (mol_edges g @ es)"
    and "\<forall>e \<in> set es. fst e \<in> keys (mol_nodes g) \<and> fst (snd e) \<in> keys (mol_nodes g)"
  shows "fold (mol_add_edge dflt) es g = g\<lparr>mol_edges := mol_edges g @ es\<rparr>"
  using assms
proof (induction es arbitrary: g)
  case Nil
  then show ?case by simp
next
  case (Cons e es)
  obtain n m b where e: "e = (n, m, b)" by (cases e)
  have new: "(min n m, max n m) \<notin> (\<lambda>e. (min (fst e) (fst (snd e)), max (fst e) (fst (snd e)))) ` set (mol_edges g)"
    using Cons.prems(1) by (auto simp: simple_edges_def e)
  have s: "mol_add_edge dflt e g = g\<lparr>mol_edges := mol_edges g @ [e]\<rparr>"
    unfolding e using Cons.prems(2) new by (intro mol_add_edge_new) (simp_all add: e)
  have "simple_edges (mol_edges (mol_add_edge dflt e g) @ es)"
    using Cons.prems(1) by (simp add: s)
  moreover have "\<forall>e' \<in> set es. fst e' \<in> keys (mol_nodes (mol_add_edge dflt e g))
       \<and> fst (snd e') \<in> keys (mol_nodes (mol_add_edge dflt e g))"
    using Cons.prems(2) by (simp add: s)
  ultimately show ?case
    using Cons.IH [of "mol_add_edge dflt e g"] by (simp add: s)
qed

lemma simple_edges_view:
  assumes "simple_edges es"
  shows "simple_edges (map (\<lambda>(n, m, bond). (n, m, f bond)) (filter P es))"
proof -
  have h: "map (\<lambda>e. (min (fst e) (fst (snd e)), max (fst e) (fst (snd e))))
          (map (\<lambda>(n, m, bond). (n, m, f bond)) (filter P es))
      = map (\<lambda>e. (min (fst e) (fst (snd e)), max (fst e) (fst (snd e)))) (filter P es)"
    by (simp add: split_beta)
  show ?thesis
    using assms unfolding simple_edges_def h by (rule distinct_map_filter)
qed

lemma decompose_side:
  assumes "is_graph g"
  shows "fold (mol_add_edge dflt)
           (map (\<lambda>(n, m, bond). (n, m, fb bond)) (filter (\<lambda>(n, m, bond). P bond) (cgr_edges g)))
           (fold mol_add_node (map (\<lambda>(n, atom). (n, fa atom)) (cgr_nodes g))
              \<lparr>mol_nodes = [], mol_edges = []\<rparr>)
       = \<lparr>mol_nodes = map (\<lambda>(n, atom). (n, fa atom)) (cgr_nodes g),
          mol_edges = map (\<lambda>(n, m, bond). (n, m, fb bond))
                        (filter (\<lambda>(n, m, bond). P bond) (cgr_edges g))\<rparr>"
proof -
  let ?ns = "map (\<lambda>(n, atom). (n, fa atom)) (cgr_nodes g)"
  let ?es = "map (\<lambda>(n, m, bond). (n, m, fb bond)) (filter (\<lambda>(n, m, bond). P bond) (cgr_edges g))"
  have f: "map fst ?ns = map fst (cgr_nodes g)"
    by (simp add: split_beta)
  then have k: "keys ?ns = keys (cgr_nodes g)"
    unfolding keys_def by (metis set_map)
  have "distinct (map fst ?ns)"
    unfolding f using assms by (simp add: is_graph_def)
  then have n: "fold mol_add_node ?ns \<lparr>mol_nodes = [], mol_edges = []\<rparr>
      = \<lparr>mol_nodes = ?ns, mol_edges = []\<rparr>"
    using fold_mol_add_node [of ?ns "\<lparr>mol_nodes = [], mol_edges = []\<rparr>"] by (simp add: keys_Nil)
  have s: "simple_edges ?es"
    using assms simple_edges_view [of "cgr_edges g" fb "\<lambda>(n, m, bond). P bond"]
    by (simp add: is_graph_def)
  have e: "\<forall>e \<in> set ?es. fst e \<in> keys ?ns \<and> fst (snd e) \<in> keys ?ns"
    using assms unfolding k by (auto simp: is_graph_def ends_ok_def list_all_iff)
  show ?thesis
    unfolding n using fold_mol_add_edge [of "\<lparr>mol_nodes = ?ns, mol_edges = []\<rparr>" ?es dflt] s e
    by simp
qed

section \<open>Lemmas on the legacy isotope\<close>
























section \<open>Claims\<close>

text \<open>
  Claim C1 (as amended). For reactant map numbers \<open>[1, 2, 0]\<close> and product map numbers
  \<open>[0, 1, 2]\<close> the counter starts at 3, one above the maximum of the whole reaction, and is
  shared by the two roles: the zero entry of the reactants becomes 3 and the zero entry of
  the products becomes 4, with or without remap mode. A reactant role with map numbers
  \<open>[1, 1]\<close> raises \<open>MapError\<close>, whatever the products are.
\<close>

theorem C1_map_assignment:
  "resolve_maps remap [1, 2, 0] [0, 1, 2] = Inr ([1, 2, 3], [4, 1, 2])
   \<and> (\<forall>ps. resolve_maps remap [1, 1] ps = Inl MapError)"
proof
  have "[1..(4::int)] = [1, 2, 3, 4]"
    by code_simp
  then show "resolve_maps remap [1, 2, 0] [0, 1, 2] = Inr ([1, 2, 3], [4, 1, 2])"
    by (simp add: resolve_maps_def resolve_role_def max_default_def close_gap_def)
  show "\<forall>ps. resolve_maps remap [1, 1] ps = Inl MapError"
    by (simp add: resolve_maps_def resolve_role_def)
qed

text \<open>
  Claim C1 as stated fails: the zero entry of the products is not assigned 3.
\<close>

theorem C1_counterexample:
  "resolve_maps False [1, 2, 0] [0, 1, 2] \<noteq> Inr ([1, 2, 3], [3, 1, 2])"
  by (simp add: resolve_maps_def resolve_role_def max_default_def)


text \<open>
  Claim C3. The bond-order-pair table maps (single, double) to the legacy code 8, the value
  \<open>1>2\<close> and the type \<open>dynbond\<close>; the encoder emits that record for an edge with reagent
  order 1 and product order 2; the dynamic-value parser, called directly or through the
  dispatch on the record type, decodes \<open>1>2\<close> to reagent order 1, product order 2 and the
  pair (1, 2): the same attribute dictionary as the one encoded.
\<close>

theorem C3_bond_round_trip:
  "to_cgr (PInt 1) (PInt 2) = Inr (''8'', Some ''1>2'', Some ''dynbond'')
   \<and> encode_bond ri rl [(''s_bond'', PInt 1), (''p_bond'', PInt 2), (''sp_bond'', PTuple [PInt 1, PInt 2])]
       = Inr ([\<lparr>rec_atoms = [ri, rl], rec_type = ''dynbond'', rec_value = Str ''1>2''\<rparr>], (ri, rl, ''8''))
   \<and> parsedyn ''bond'' ''1>2''
       = Inr (Some [(''sp_bond'', PTuple [PInt 1, PInt 2]), (''s_bond'', PInt 1), (''p_bond'', PInt 2)])
   \<and> cgr_dat ms ''dynbond'' (Str ''1>2'')
       = Inr (Some [(''sp_bond'', PTuple [PInt 1, PInt 2]), (''s_bond'', PInt 1), (''p_bond'', PInt 2)])
   \<and> map_of [(''sp_bond'', PTuple [PInt 1, PInt 2]), (''s_bond'', PInt 1), (''p_bond'', PInt 2)]
       = map_of [(''s_bond'', PInt 1), (''p_bond'', PInt 2), (''sp_bond'', PTuple [PInt 1, PInt 2])]"
proof -
  have s: "str_int 1 = ''1''" "str_int 2 = ''2''"
    by (simp_all add: str_int_def str_nat.simps digit_char_def)
  have t: "to_cgr (PInt 1) (PInt 2) = Inr (''8'', Some ''1>2'', Some ''dynbond'')"
    by (simp add: to_cgr_def ways_def is_list_def rep_get_def s)
  have p: "parsedyn ''bond'' ''1>2''
       = Inr (Some [(''sp_bond'', PTuple [PInt 1, PInt 2]), (''s_bond'', PInt 1), (''p_bond'', PInt 2)])"
    by (simp add: parsedyn_def label_def bondlabels_def marks_def)
  have m: "map_of [(''sp_bond'', PTuple [PInt 1, PInt 2]), (''s_bond'', PInt 1), (''p_bond'', PInt 2)]
       = map_of [(''s_bond'', PInt 1), (''p_bond'', PInt 2), (''sp_bond'', PTuple [PInt 1, PInt 2])]"
    by (auto simp: fun_eq_iff)
  show ?thesis
    using t p m by (simp add: encode_bond_def dict_get_def cgr_dat_def the_str_def)
qed

theorem C3_witness:
  "encode_bond 1 2 [(''s_bond'', PInt 1), (''p_bond'', PInt 2), (''sp_bond'', PTuple [PInt 1, PInt 2])]
       = Inr ([\<lparr>rec_atoms = [1, 2], rec_type = ''dynbond'', rec_value = Str ''1>2''\<rparr>], (1, 2, ''8''))
   \<and> cgr_dat [] ''dynbond'' (Str ''1>2'')
       = Inr (Some [(''sp_bond'', PTuple [PInt 1, PInt 2]), (''s_bond'', PInt 1), (''p_bond'', PInt 2)])"
  using C3_bond_round_trip [of 1 2 "[]"] by simp

text \<open>
  Claim C7 (as amended). For all integer charges \<open>s \<noteq> p\<close> the encoder emits a \<open>dynatom\<close>
  record whose value is \<open>c\<close> followed by \<open>p - s\<close> printed with its sign, and decoding that
  value against the base charge \<open>s\<close> gives reagent charge \<open>s\<close>, product charge \<open>p\<close> and the
  pair \<open>(s, p)\<close>. Decoding \<open>c\<close> followed by any single token that reads as a nonzero integer
  \<open>d\<close> against a base charge gives product charge = base charge + \<open>d\<close>. In particular
  charges 0 and 1 encode to \<open>c+1\<close>, and \<open>c+1\<close> against base 0 gives product charge 1.
\<close>

theorem C7_charge_delta:
  "(s \<noteq> p \<longrightarrow>
      snd (charge_scalar is_mdl s p) = Some (''dynatom'', CHR ''c'' # fmt_plus_d (p - s))
      \<and> cgr_atom_dat ops (CHR ''c'' # fmt_plus_d (p - s)) s
          = Inr (Some [(''s_charge'', PInt s), (''p_charge'', PInt p),
                       (''sp_charge'', PTuple [PInt s, PInt p])]))
   \<and> (py_int tok = Inr d \<and> d \<noteq> 0 \<and> CHR '','' \<notin> set tok \<longrightarrow>
        cgr_atom_dat ops (CHR ''c'' # tok) charge
          = Inr (Some [(''s_charge'', PInt charge), (''p_charge'', PInt (charge + d)),
                       (''sp_charge'', PTuple [PInt charge, PInt (charge + d)])]))
   \<and> charge_scalar is_mdl 0 1 = (if is_mdl then toMDL 0 else 0, Some (''dynatom'', ''c+1''))
   \<and> cgr_atom_dat ops ''c+1'' 0
        = Inr (Some [(''s_charge'', PInt 0), (''p_charge'', PInt 1),
                     (''sp_charge'', PTuple [PInt 0, PInt 1])])"
proof -
  have dec: "cgr_atom_dat ops (CHR ''c'' # tok) charge
          = Inr (Some [(''s_charge'', PInt charge), (''p_charge'', PInt (charge + d)),
                       (''sp_charge'', PTuple [PInt charge, PInt (charge + d)])])"
    if "py_int tok = Inr d" "d \<noteq> 0" "CHR '','' \<notin> set tok" for tok d charge
    using that by (simp add: cgr_atom_dat_def split_on_single Let_def)
  have f1: "fmt_plus_d 1 = ''+1''"
    by (simp add: fmt_plus_d_def str_nat.simps digit_char_def)
  have rt: "cgr_atom_dat ops (CHR ''c'' # fmt_plus_d (p - s)) s
          = Inr (Some [(''s_charge'', PInt s), (''p_charge'', PInt p),
                       (''sp_charge'', PTuple [PInt s, PInt p])])" if "s \<noteq> p" for s p
    using dec [OF py_int_fmt_plus_d _ comma_fmt_plus_d, of "p - s" s] that by simp
  show ?thesis
    using rt [of 0 1] dec rt by (auto simp: charge_scalar_def f1)
qed

theorem C7_witness:
  "(3::int) \<noteq> 5 \<and> py_int ''+1'' = Inr 1
   \<and> snd (charge_scalar True 3 5) = Some (''dynatom'', CHR ''c'' # fmt_plus_d 2)
   \<and> cgr_atom_dat small_int_ops (CHR ''c'' # fmt_plus_d 2) 3
        = Inr (Some [(''s_charge'', PInt 3), (''p_charge'', PInt 5),
                     (''sp_charge'', PTuple [PInt 3, PInt 5])])
   \<and> cgr_atom_dat small_int_ops ''c+1'' 7
        = Inr (Some [(''s_charge'', PInt 7), (''p_charge'', PInt 8),
                     (''sp_charge'', PTuple [PInt 7, PInt 8])])"
  using C7_charge_delta [of 3 5 True small_int_ops "''+1''" 1 7] py_int_plus_one by simp

text \<open>
  Claim C7 as stated fails for the single numeric delta 0: decoding \<open>c0\<close> yields no charge
  at all (the decoder returns \<^verbatim>\<open>None\<close>), not product charge = reagent charge + 0.
\<close>

theorem C7_counterexample:
  "cgr_atom_dat small_int_ops ''c0'' 5 = Inr None"
  by (simp add: cgr_atom_dat_def py_int_def strip_def is_space_def unsigned_int_def is_digit_def
      digit_val_def)

text \<open>
  Claim C10. The decoded value of a dynamic-transition record depends only on the tokens
  whose before-symbol differs from the after-symbol: two values with the same such tokens
  decode alike, the others are dropped before any symbol is looked up. When every token of
  the value has equal sides, \<^verbatim>\<open>__parsedyn\<close> returns \<^verbatim>\<open>None\<close> for each of the three properties
  (bond, hybridization, neighbours), so does the dispatch on the three dynamic record types,
  and the record loop of the assembler leaves its tables as they were: no property update,
  no static value, no error.
\<close>

theorem C10_equal_sides_dropped:
  "(filter (\<lambda>x. \<not> same_sides x) (split_on CHR '','' v) = filter (\<lambda>x. \<not> same_sides x) (split_on CHR '','' v')
      \<longrightarrow> parsedyn name v = parsedyn name v')
   \<and> ((\<forall>x \<in> set (split_on CHR '','' v). same_sides x) \<longrightarrow>
        (name \<in> set [''bond'', ''hyb'', ''neighbors''] \<longrightarrow> parsedyn name v = Inr None)
        \<and> (t \<in> set [''dynbond'', ''dynatomhyb'', ''dynatomneighbors''] \<longrightarrow>
             cgr_dat ms t (Str v) = Inr None
             \<and> cgr_dat_step ops ms atoms \<lparr>rec_atoms = as, rec_type = t, rec_value = Str v\<rparr> st = Inr st))"
proof (intro conjI impI)
  assume "filter (\<lambda>x. \<not> same_sides x) (split_on CHR '','' v) = filter (\<lambda>x. \<not> same_sides x) (split_on CHR '','' v')"
  then have "parsedyn_loop name (split_on CHR '','' v) = parsedyn_loop name (split_on CHR '','' v')"
    using parsedyn_loop_filter [of name "split_on CHR '','' v"]
      parsedyn_loop_filter [of name "split_on CHR '','' v'"] by simp
  then show "parsedyn name v = parsedyn name v'"
    by (simp add: parsedyn_def)
next
  assume a: "\<forall>x \<in> set (split_on CHR '','' v). same_sides x"
  have l: "parsedyn_loop n (split_on CHR '','' v) = Inr ([], [])" for n
    using a by (rule parsedyn_loop_all_same)
  {
    assume "name \<in> set [''bond'', ''hyb'', ''neighbors'']"
    then show "parsedyn name v = Inr None"
      by (auto simp: parsedyn_def l marks_def)
  }
  assume t: "t \<in> set [''dynbond'', ''dynatomhyb'', ''dynatomneighbors'']"
  have p: "parsedyn ''bond'' v = Inr None" "parsedyn ''hyb'' v = Inr None" "parsedyn ''neighbors'' v = Inr None"
    by (simp_all add: parsedyn_def l marks_def)
  show c: "cgr_dat ms t (Str v) = Inr None"
    using t p by (auto simp: cgr_dat_def the_str_def)
  show "cgr_dat_step ops ms atoms \<lparr>rec_atoms = as, rec_type = t, rec_value = Str v\<rparr> st = Inr st"
    using t c by (cases st) (auto simp: cgr_dat_step_def)
qed

theorem C10_witness:
  "same_sides ''1>1'' \<and> same_sides ''q>q''
   \<and> parsedyn ''bond'' ''1>1,1>2'' = parsedyn ''bond'' ''1>2''
   \<and> parsedyn ''bond'' ''1>1,q>q'' = Inr None
   \<and> cgr_dat [] ''dynbond'' (Str ''1>1,q>q'') = Inr None
   \<and> cgr_dat_step small_int_ops [] [] \<lparr>rec_atoms = [1, 2], rec_type = ''dynbond'', rec_value = Str ''1>1,q>q''\<rparr> ([], [])
       = Inr ([], [])"
proof -
  have s: "same_sides ''1>1''" "same_sides ''q>q''" "\<not> same_sides ''1>2''"
    by (simp_all add: same_sides_def)
  show ?thesis
    using C10_equal_sides_dropped [of "''1>1,1>2''" "''1>2''" "''bond''"]
      C10_equal_sides_dropped [of "''1>1,q>q''" "''1>1,q>q''" "''bond''" "''dynbond''" "[]" small_int_ops "[]"
        "[1, 2]" "([], [])"]
      s by simp
qed


text \<open>
  Claim C8 (as amended). Let the record loop of one molecule block give the atom table \<open>ta\<close>
  and let the atom loop end in the state \<open>st1\<close>. Reagent-side stereo inference is still
  valid then exactly when every atom line has the legacy z-coordinate 0. Product-side stereo
  inference is still valid exactly when no atom that has an entry in the atom table (a
  dynamic-atom or other atom-level extension record) has a derived product-side z-coordinate
  less than the float 0.0001, the derived coordinate being the float sum of the z-component
  of the atom's coordinate shift and its legacy z-coordinate, or the legacy z-coordinate
  when the atom has no coordinate shift; atoms without an entry are not examined. When
  decoding of the block succeeds, a side that was invalidated has no depth mark on any node
  of the graph: no \<open>s_dz\<close> for the reagent side, no \<open>p_dz\<close> for the product side. This holds
  for every float arithmetic \<open>ops\<close>.
\<close>

theorem C8_stereo_invalidation:
  assumes "tables ops ms mol = Inr (ta, tb)" and "atoms_loop ops table mapping ta mol = Inr st1"
  shows "(mdl_s_stereo st1 \<longleftrightarrow> (\<forall>l \<in> set (m_atoms mol). l_z l = Finite 0))
       \<and> (mdl_p_stereo st1 \<longleftrightarrow>
            \<not> (\<exists>(k, l) \<in> set (enumerate1 (m_atoms mol)). \<exists>dat. map_of ta k = Some dat
                 \<and> float_lt (product_z ops dat l) (Finite (7378697629483821 / 2 ^ 66))))
       \<and> (\<forall>g. parse_molecule ops ms table mol mapping = Inr g \<longrightarrow>
             (\<not> mdl_s_stereo st1 \<longrightarrow> no_attr ''s_dz'' g) \<and> (\<not> mdl_p_stereo st1 \<longrightarrow> no_attr ''p_dz'' g))"
proof -
  note ok = tab_ok_tables [OF assms(1)]
  note al = atoms_efold_props [OF assms(2) [unfolded atoms_loop_def] ok]
  have s: "mdl_s_stereo st1 \<longleftrightarrow> (\<forall>l \<in> set (m_atoms mol). l_z l = Finite 0)"
  proof -
    have "(\<forall>l \<in> snd ` set (enumerate1 (m_atoms mol)). \<not> float_nonzero (l_z l))
        = (\<forall>kl \<in> set (enumerate1 (m_atoms mol)). \<not> float_nonzero (l_z (snd kl)))"
      by simp
    then have "(\<forall>l \<in> set (m_atoms mol). \<not> float_nonzero (l_z l))
        = (\<forall>kl \<in> set (enumerate1 (m_atoms mol)). \<not> float_nonzero (l_z (snd kl)))"
      by (simp only: set_enumerate1)
    then show ?thesis using al [of "''s_dz''"] by (simp add: float_nonzero_iff)
  qed
  have "list_ex (low_product_z ops ta) (enumerate1 (m_atoms mol))
      \<longleftrightarrow> (\<exists>(k, l) \<in> set (enumerate1 (m_atoms mol)). \<exists>dat. map_of ta k = Some dat
                 \<and> float_lt (product_z ops dat l) (Finite (7378697629483821 / 2 ^ 66)))"
    unfolding list_ex_iff by (rule bex_cong [OF refl]) (simp add: low_product_z_iff split_beta)
  then have p: "mdl_p_stereo st1 \<longleftrightarrow>
            \<not> (\<exists>(k, l) \<in> set (enumerate1 (m_atoms mol)). \<exists>dat. map_of ta k = Some dat
                 \<and> float_lt (product_z ops dat l) (Finite (7378697629483821 / 2 ^ 66)))"
    using al [of "''s_dz''"] by simp
  have n1: "no_attr ''s_dz'' (graph st1)" "no_attr ''p_dz'' (graph st1)"
    using al [of "''s_dz''"] al [of "''p_dz''"] by (simp_all add: no_attr_empty)
  have g: "(\<not> mdl_s_stereo st1 \<longrightarrow> no_attr ''s_dz'' g) \<and> (\<not> mdl_p_stereo st1 \<longrightarrow> no_attr ''p_dz'' g)"
    if "parse_molecule ops ms table mol mapping = Inr g" for g
  proof -
    have "ebind (efold (bond_step mapping tb) (m_bonds mol) st1)
            (\<lambda>st2. if mdl_p_stereo st2 then efold dz_step (atom_dz st2) (graph st2)
                   else Inr (graph st2)) = Inr g"
      using that assms by (simp add: parse_molecule_def)
    then obtain st2 where b: "efold (bond_step mapping tb) (m_bonds mol) st1 = Inr st2"
      and f: "(if mdl_p_stereo st2 then efold dz_step (atom_dz st2) (graph st2) else Inr (graph st2)) = Inr g"
      unfolding ebind_Inr_iff by blast
    note bl = bonds_efold_props [OF b]
    have "no_attr ''s_dz'' g" if "\<not> mdl_s_stereo st1"
    proof -
      have "no_attr ''s_dz'' (graph st2)" using bl that n1 by simp
      then show ?thesis using f dz_efold_s_dz by (auto split: if_splits)
    qed
    moreover have "no_attr ''p_dz'' g" if "\<not> mdl_p_stereo st1"
    proof -
      have "no_attr ''p_dz'' (graph st2)" "\<not> mdl_p_stereo st2" using bl that n1 by simp_all
      then show ?thesis using f by simp
    qed
    ultimately show ?thesis by blast
  qed
  show ?thesis using s p g by blast
qed

theorem C8_witness:
  "product_z small_int_ops [(''p_x'', PFloat (Finite 0)), (''p_y'', PFloat (Finite 0)),
                            (''p_z'', PFloat (Finite (- 2)))] (carbon 0 1 0) = Finite (- 1)
   \<and> float_lt (Finite (- 1)) (Finite (7378697629483821 / 2 ^ 66))
   \<and> tables small_int_ops [] raised_wedge
     = Inr ([(2, [(''p_x'', PFloat (Finite 0)), (''p_y'', PFloat (Finite 0)),
                  (''p_z'', PFloat (Finite (- 2)))])], [])
   \<and> atoms_loop small_int_ops carbon_table [(1, 1), (2, 2)]
         [(2, [(''p_x'', PFloat (Finite 0)), (''p_y'', PFloat (Finite 0)),
               (''p_z'', PFloat (Finite (- 2)))])] raised_wedge
     = Inr \<lparr>graph = \<lparr>g_node =
           [(1, [(''mark'', PStr ''0''), (''s_x'', PFloat (Finite 0)), (''s_y'', PFloat (Finite 0)),
                 (''s_z'', PFloat (Finite 0)), (''p_x'', PFloat (Finite 0)),
                 (''p_y'', PFloat (Finite 0)), (''p_z'', PFloat (Finite 0)), (''s_charge'', PInt 0),
                 (''p_charge'', PInt 0), (''sp_charge'', PInt 0), (''element'', PStr ''C'')]),
            (2, [(''mark'', PStr ''0''), (''s_x'', PFloat (Finite 0)), (''s_y'', PFloat (Finite 0)),
                 (''s_z'', PFloat (Finite 1)), (''p_x'', PFloat (Finite 0)),
                 (''p_y'', PFloat (Finite 0)), (''p_z'', PFloat (Finite (- 1))), (''s_charge'', PInt 0),
                 (''p_charge'', PInt 0), (''sp_charge'', PInt 0), (''element'', PStr ''C'')])],
           g_edge = []\<rparr>,
         mdl_s_stereo = False, mdl_p_stereo = False, atom_dz = []\<rparr>
   \<and> parse_molecule small_int_ops [] carbon_table raised_wedge [(1, 1), (2, 2)]
     = Inr \<lparr>g_node =
           [(1, [(''mark'', PStr ''0''), (''s_x'', PFloat (Finite 0)), (''s_y'', PFloat (Finite 0)),
                 (''s_z'', PFloat (Finite 0)), (''p_x'', PFloat (Finite 0)),
                 (''p_y'', PFloat (Finite 0)), (''p_z'', PFloat (Finite 0)), (''s_charge'', PInt 0),
                 (''p_charge'', PInt 0), (''sp_charge'', PInt 0), (''element'', PStr ''C'')]),
            (2, [(''mark'', PStr ''0''), (''s_x'', PFloat (Finite 0)), (''s_y'', PFloat (Finite 0)),
                 (''s_z'', PFloat (Finite 1)), (''p_x'', PFloat (Finite 0)),
                 (''p_y'', PFloat (Finite 0)), (''p_z'', PFloat (Finite (- 1))), (''s_charge'', PInt 0),
                 (''p_charge'', PInt 0), (''sp_charge'', PInt 0), (''element'', PStr ''C'')])],
           g_edge = [((1, 2), [(''s_bond'', PInt 1), (''p_bond'', PInt 1), (''sp_bond'', PInt 1)])]\<rparr>
   \<and> no_attr ''s_dz'' \<lparr>g_node =
           [(1, [(''mark'', PStr ''0''), (''s_x'', PFloat (Finite 0)), (''s_y'', PFloat (Finite 0)),
                 (''s_z'', PFloat (Finite 0)), (''p_x'', PFloat (Finite 0)),
                 (''p_y'', PFloat (Finite 0)), (''p_z'', PFloat (Finite 0)), (''s_charge'', PInt 0),
                 (''p_charge'', PInt 0), (''sp_charge'', PInt 0), (''element'', PStr ''C'')]),
            (2, [(''mark'', PStr ''0''), (''s_x'', PFloat (Finite 0)), (''s_y'', PFloat (Finite 0)),
                 (''s_z'', PFloat (Finite 1)), (''p_x'', PFloat (Finite 0)),
                 (''p_y'', PFloat (Finite 0)), (''p_z'', PFloat (Finite (- 1))), (''s_charge'', PInt 0),
                 (''p_charge'', PInt 0), (''sp_charge'', PInt 0), (''element'', PStr ''C'')])],
           g_edge = [((1, 2), [(''s_bond'', PInt 1), (''p_bond'', PInt 1), (''sp_bond'', PInt 1)])]\<rparr>
   \<and> no_attr ''p_dz'' \<lparr>g_node =
           [(1, [(''mark'', PStr ''0''), (''s_x'', PFloat (Finite 0)), (''s_y'', PFloat (Finite 0)),
                 (''s_z'', PFloat (Finite 0)), (''p_x'', PFloat (Finite 0)),
                 (''p_y'', PFloat (Finite 0)), (''p_z'', PFloat (Finite 0)), (''s_charge'', PInt 0),
                 (''p_charge'', PInt 0), (''sp_charge'', PInt 0), (''element'', PStr ''C'')]),
            (2, [(''mark'', PStr ''0''), (''s_x'', PFloat (Finite 0)), (''s_y'', PFloat (Finite 0)),
                 (''s_z'', PFloat (Finite 1)), (''p_x'', PFloat (Finite 0)),
                 (''p_y'', PFloat (Finite 0)), (''p_z'', PFloat (Finite (- 1))), (''s_charge'', PInt 0),
                 (''p_charge'', PInt 0), (''sp_charge'', PInt 0), (''element'', PStr ''C'')])],
           g_edge = [((1, 2), [(''s_bond'', PInt 1), (''p_bond'', PInt 1), (''sp_bond'', PInt 1)])]\<rparr>"
proof -
  let ?ta = "[(2, [(''p_x'', PFloat (Finite 0)), (''p_y'', PFloat (Finite 0)),
                   (''p_z'', PFloat (Finite (- 2)))])]"
  let ?nodes = "[(1, [(''mark'', PStr ''0''), (''s_x'', PFloat (Finite 0)), (''s_y'', PFloat (Finite 0)),
                 (''s_z'', PFloat (Finite 0)), (''p_x'', PFloat (Finite 0)),
                 (''p_y'', PFloat (Finite 0)), (''p_z'', PFloat (Finite 0)), (''s_charge'', PInt 0),
                 (''p_charge'', PInt 0), (''sp_charge'', PInt 0), (''element'', PStr ''C'')]),
            (2, [(''mark'', PStr ''0''), (''s_x'', PFloat (Finite 0)), (''s_y'', PFloat (Finite 0)),
                 (''s_z'', PFloat (Finite 1)), (''p_x'', PFloat (Finite 0)),
                 (''p_y'', PFloat (Finite 0)), (''p_z'', PFloat (Finite (- 1))), (''s_charge'', PInt 0),
                 (''p_charge'', PInt 0), (''sp_charge'', PInt 0), (''element'', PStr ''C'')])]"
  let ?st = "\<lparr>graph = \<lparr>g_node = ?nodes, g_edge = []\<rparr>,
              mdl_s_stereo = False, mdl_p_stereo = False, atom_dz = []\<rparr>"
  let ?g = "\<lparr>g_node = ?nodes,
             g_edge = [((1, 2), [(''s_bond'', PInt 1), (''p_bond'', PInt 1), (''sp_bond'', PInt 1)])]\<rparr>"
  have t: "tables small_int_ops [] raised_wedge = Inr (?ta, [])"
    by code_simp
  have a: "atoms_loop small_int_ops carbon_table [(1, 1), (2, 2)] ?ta raised_wedge = Inr ?st"
    by code_simp
  have p: "parse_molecule small_int_ops [] carbon_table raised_wedge [(1, 1), (2, 2)] = Inr ?g"
    by code_simp
  have z: "product_z small_int_ops [(''p_x'', PFloat (Finite 0)), (''p_y'', PFloat (Finite 0)),
                            (''p_z'', PFloat (Finite (- 2)))] (carbon 0 1 0) = Finite (- 1)"
    "float_lt (Finite (- 1)) (Finite (7378697629483821 / 2 ^ 66))"
    by (simp_all add: product_z_def small_int_ops_def carbon_def float_lt_def)
  show ?thesis
    using C8_stereo_invalidation [OF t a] t a p z by simp
qed

text \<open>
  Claim C8 as stated fails: in a flat block without extension records every atom has the
  derived product-side z-coordinate 0, which is below the threshold, and yet the wedge bond
  seeds the product-side depth mark \<open>p_dz\<close> on its far atom.
\<close>

theorem C8_counterexample:
  "parse_molecule small_int_ops [] carbon_table flat_wedge [(1, 1), (2, 2)] =
   Inr \<lparr>g_node =
        [(1, [(''mark'', PStr ''0''), (''s_x'', PFloat (Finite 0)), (''s_y'', PFloat (Finite 0)), (''s_z'', PFloat (Finite 0)),
              (''p_x'', PFloat (Finite 0)), (''p_y'', PFloat (Finite 0)), (''p_z'', PFloat (Finite 0)), (''s_charge'', PInt 0),
              (''p_charge'', PInt 0), (''sp_charge'', PInt 0), (''element'', PStr ''C'')]),
         (2, [(''mark'', PStr ''0''), (''s_x'', PFloat (Finite 0)), (''s_y'', PFloat (Finite 0)), (''s_z'', PFloat (Finite 0)),
              (''p_x'', PFloat (Finite 0)), (''p_y'', PFloat (Finite 0)), (''p_z'', PFloat (Finite 0)), (''s_charge'', PInt 0),
              (''p_charge'', PInt 0), (''sp_charge'', PInt 0), (''element'', PStr ''C''),
              (''s_dz'', PInt 1), (''p_dz'', PInt 1)])],
        g_edge = [((1, 2), [(''s_bond'', PInt 1), (''p_bond'', PInt 1), (''sp_bond'', PInt 1)])]\<rparr>"
  by code_simp

text \<open>
  Claim C6 (as amended). On a graph whose edges end in nodes, classification reset returns,
  with or without the copy flag. The hybridization it stores on an atom, per side, is the
  result of a scan of the orders of the incident bonds that starts at 1 (sp3). The class is
  in \<open>{1, 2, 3, 4}\<close> and never decreases during the scan; an order that is not set (absent or
  0) leaves it as it is. While the class is 1 or 2 (sp3 or sp2), an aromatic order sets it to
  4 and a triple order sets it to 3 at once; a double order takes 1 to 2 and 2 to 3. Once
  the class is 3 or 4 (sp or aromatic) it is final: no later order changes it, an aromatic
  one included. In particular the orders [double, double] give class 3 (sp), not 2.
\<close>

theorem C6_hybridization:
  "(ends_ok g \<longrightarrow> (\<exists>self' ret. reset_query_marks cp g = Inr (self', ret)))
   \<and> (reset_query_marks cp g = Inr (self', ret)
        \<and> (i, atom) \<in> set (cgr_nodes (case ret of Some c \<Rightarrow> c | None \<Rightarrow> self')) \<longrightarrow>
      a_hybridization atom = Some (hyb_scan (map (\<lambda>jb. b_order (snd jb)) (adj g i)))
      \<and> a_p_hybridization atom = Some (hyb_scan (map (\<lambda>jb. b_p_order (snd jb)) (adj g i))))
   \<and> hyb_scan [] = 1
   \<and> hyb_scan os \<le> hyb_scan (os @ [ord]) \<and> hyb_scan os \<in> {1, 2, 3, 4}
   \<and> (\<not> order_set ord \<longrightarrow> hyb_scan (os @ [ord]) = hyb_scan os)
   \<and> (hyb_scan os \<in> {1, 2} \<longrightarrow>
        hyb_scan (os @ [Some 4]) = 4 \<and> hyb_scan (os @ [Some 3]) = 3)
   \<and> (hyb_scan os \<in> {3, 4} \<longrightarrow> hyb_scan (os @ os') = hyb_scan os)
   \<and> (hyb_scan os = 1 \<longrightarrow> hyb_scan (os @ [Some 2]) = 2)
   \<and> (hyb_scan os = 2 \<longrightarrow> hyb_scan (os @ [Some 2]) = 3)
   \<and> hyb_scan [Some 2, Some 2] = 3"
proof -
  have tot: "ends_ok g \<longrightarrow> (\<exists>self' ret. reset_query_marks cp g = Inr (self', ret))"
  proof
    assume "ends_ok g"
    then obtain ns where "marked_nodes g = Inr ns"
      using marked_nodes_total by blast
    then show "\<exists>self' ret. reset_query_marks cp g = Inr (self', ret)"
      by (simp add: reset_query_marks_def copy_def marked_nodes_cache Let_def)
  qed
  have code: "a_hybridization atom = Some (hyb_scan (map (\<lambda>jb. b_order (snd jb)) (adj g i)))
      \<and> a_p_hybridization atom = Some (hyb_scan (map (\<lambda>jb. b_p_order (snd jb)) (adj g i)))"
    if r: "reset_query_marks cp g = Inr (self', ret)"
      and m: "(i, atom) \<in> set (cgr_nodes (case ret of Some c \<Rightarrow> c | None \<Rightarrow> self'))"
  proof -
    obtain ns where ns: "marked_nodes g = Inr ns"
      and c: "if cp then self' = g \<and> ret = Some (g\<lparr>cgr_nodes := ns, cgr_cache := None\<rparr>)
        else self' = g\<lparr>cgr_nodes := ns, cgr_cache := None\<rparr> \<and> ret = None"
      using reset_query_marks_cases [OF r] by blast
    have "(i, atom) \<in> set ns"
      using m c by (cases cp) simp_all
    then show ?thesis using marked_nodes_hyb [OF ns] by blast
  qed
  have "hyb_scan os \<le> hyb_scan (os @ [ord])"
    using hyb_step_range [OF hyb_scan_range, of os ord] by (simp add: hyb_scan_snoc)
  moreover have "hyb_scan [Some 2, Some 2] = 3" "hyb_scan [] = 1"
    by (simp_all add: hyb_scan_def hyb_step_def order_set_def)
  moreover have "\<not> order_set ord \<longrightarrow> hyb_scan (os @ [ord]) = hyb_scan os"
    by (simp add: hyb_scan_snoc hyb_step_def)
  moreover have "hyb_scan os \<in> {1, 2} \<longrightarrow>
        hyb_scan (os @ [Some 4]) = 4 \<and> hyb_scan (os @ [Some 3]) = 3"
    by (auto simp: hyb_scan_snoc hyb_step_def order_set_def)
  moreover have "(hyb_scan os = 1 \<longrightarrow> hyb_scan (os @ [Some 2]) = 2)"
    "(hyb_scan os = 2 \<longrightarrow> hyb_scan (os @ [Some 2]) = 3)"
    by (simp_all add: hyb_scan_snoc hyb_step_def order_set_def)
  ultimately show ?thesis
    using tot code hyb_scan_range [of os] hyb_scan_fixed [of os os']
    by blast
qed

theorem C6_witness:
  "ends_ok cumulene
   \<and> reset_query_marks False cumulene
       = Inr (cumulene\<lparr>cgr_nodes := [(1, set_marks (atom_of ''C'' 0 0) (2, 3, 2, 3)),
                                     (2, set_marks (atom_of ''C'' 0 0) (1, 2, 1, 2)),
                                     (3, set_marks (atom_of ''C'' 0 0) (1, 2, 1, 2))]\<rparr>, None)
   \<and> map (\<lambda>jb. b_order (snd jb)) (adj cumulene 1) = [Some 2, Some 2]
   \<and> a_hybridization (set_marks (atom_of ''C'' 0 0) (2, 3, 2, 3)) = Some 3
   \<and> \<not> order_set (Some 0) \<and> hyb_scan [Some 2] = 2 \<and> hyb_scan ([Some 2] @ [Some 0]) = 2
   \<and> hyb_scan ([Some 2] @ [Some 4]) = 4 \<and> hyb_scan ([Some 2] @ [Some 3]) = 3
   \<and> hyb_scan ([Some 2] @ [Some 2]) = 3
   \<and> hyb_scan [] = 1 \<and> hyb_scan ([] @ [Some 2]) = 2
   \<and> hyb_scan [Some 3] = 3 \<and> hyb_scan ([Some 3] @ [Some 2, Some 4]) = 3"
proof -
  let ?g' = "cumulene\<lparr>cgr_nodes := [(1, set_marks (atom_of ''C'' 0 0) (2, 3, 2, 3)),
                                     (2, set_marks (atom_of ''C'' 0 0) (1, 2, 1, 2)),
                                     (3, set_marks (atom_of ''C'' 0 0) (1, 2, 1, 2))]\<rparr>"
  have e: "ends_ok cumulene"
    by (simp add: ends_ok_def cumulene_def keys_Cons keys_Nil)
  have r: "reset_query_marks False cumulene = Inr (?g', None)"
    by code_simp
  have a: "map (\<lambda>jb. b_order (snd jb)) (adj cumulene 1) = [Some 2, Some 2]"
    by (simp add: adj_def cumulene_def bond_of_def)
  have h: "hyb_scan [Some 2] = 2" "hyb_scan [] = 1" "hyb_scan [Some 3] = 3" "\<not> order_set (Some 0)"
    by (simp_all add: hyb_scan_def hyb_step_def order_set_def)
  show ?thesis
    using C6_hybridization [of cumulene False ?g' None 1 "set_marks (atom_of ''C'' 0 0) (2, 3, 2, 3)"
        "[Some 2]" "Some 0" "[]"]
      C6_hybridization [of cumulene False ?g' None 1 "set_marks (atom_of ''C'' 0 0) (2, 3, 2, 3)"
        "[]" "Some 0" "[]"]
      C6_hybridization [of cumulene False ?g' None 1 "set_marks (atom_of ''C'' 0 0) (2, 3, 2, 3)"
        "[Some 3]" "Some 0" "[Some 2, Some 4]"]
      e r a h
    by (simp add: cumulene_def)
qed

text \<open>
  Claim C6 as stated fails for an aromatic order that is scanned after the class has reached
  sp: atom 1 below has a triple bond and then an aromatic bond, and its class on both sides is
  3 (sp); the aromatic order did not force the aromatic class 4.
\<close>

theorem C6_counterexample:
  "reset_query_marks False sp_then_aromatic
     = Inr (sp_then_aromatic\<lparr>cgr_nodes := [(1, set_marks (atom_of ''C'' 0 0) (2, 3, 2, 3)),
                                            (2, set_marks (atom_of ''C'' 0 0) (1, 3, 1, 3)),
                                            (3, set_marks (atom_of ''C'' 0 0) (1, 4, 1, 4))]\<rparr>, None)"
  by code_simp

text \<open>
  Claim C4. The identifiers that reaction-centre extraction returns are exactly those of the
  atoms whose reagent view differs from the product view, or, when stereo sensitivity is
  requested, whose two stereo marks differ, together with both end points of every bond for
  which the same holds; no identifier is returned twice. When, for every atom and every bond,
  the two views are equal (and, in the stereo-sensitive case, the two stereo marks), the
  result is empty.
\<close>

theorem C4_center_atoms:
  "set (get_center_atoms stereo g)
     = {n. \<exists>atom. (n, atom) \<in> set (cgr_nodes g)
            \<and> (a_reagent atom \<noteq> a_product atom \<or> (stereo \<and> a_stereo atom \<noteq> a_p_stereo atom))}
       \<union> {x. \<exists>n m bond. (n, m, bond) \<in> set (cgr_edges g) \<and> (x = n \<or> x = m)
            \<and> (b_reagent bond \<noteq> b_product bond \<or> (stereo \<and> b_stereo bond \<noteq> b_p_stereo bond))}
   \<and> distinct (get_center_atoms stereo g)
   \<and> ((\<forall>(n, atom) \<in> set (cgr_nodes g).
          a_reagent atom = a_product atom \<and> (stereo \<longrightarrow> a_stereo atom = a_p_stereo atom))
       \<and> (\<forall>(n, m, bond) \<in> set (cgr_edges g).
          b_reagent bond = b_product bond \<and> (stereo \<longrightarrow> b_stereo bond = b_p_stereo bond))
       \<longrightarrow> get_center_atoms stereo g = [])"
proof (intro conjI impI)
  show "set (get_center_atoms stereo g)
     = {n. \<exists>atom. (n, atom) \<in> set (cgr_nodes g)
            \<and> (a_reagent atom \<noteq> a_product atom \<or> (stereo \<and> a_stereo atom \<noteq> a_p_stereo atom))}
       \<union> {x. \<exists>n m bond. (n, m, bond) \<in> set (cgr_edges g) \<and> (x = n \<or> x = m)
            \<and> (b_reagent bond \<noteq> b_product bond \<or> (stereo \<and> b_stereo bond \<noteq> b_p_stereo bond))}"
    unfolding get_center_atoms_def Let_def set_insert_fold_edges set_insert_fold_nodes
    by (simp add: atom_in_center_def bond_in_center_def)
  show "distinct (get_center_atoms stereo g)"
    unfolding get_center_atoms_def Let_def
    by (intro distinct_insert_fold_edges distinct_insert_fold_nodes) simp
next
  assume a: "(\<forall>(n, atom) \<in> set (cgr_nodes g).
          a_reagent atom = a_product atom \<and> (stereo \<longrightarrow> a_stereo atom = a_p_stereo atom))
       \<and> (\<forall>(n, m, bond) \<in> set (cgr_edges g).
          b_reagent bond = b_product bond \<and> (stereo \<longrightarrow> b_stereo bond = b_p_stereo bond))"
  have n: "\<forall>(n, atom) \<in> set (cgr_nodes g). \<not> atom_in_center stereo atom"
    using a by (auto simp: atom_in_center_def)
  have e: "\<forall>(n, m, bond) \<in> set (cgr_edges g). \<not> bond_in_center stereo bond"
    using a by (auto simp: bond_in_center_def)
  show "get_center_atoms stereo g = []"
    unfolding get_center_atoms_def Let_def
    by (simp only: fold_nodes_none [OF n] fold_edges_none [OF e])
qed

theorem C4_witness:
  "get_center_atoms True cumulene = []
   \<and> get_center_atoms False center_example = [4, 3, 2]
   \<and> set (get_center_atoms False center_example) = {2, 3, 4}"
proof -
  have c: "get_center_atoms False center_example = [4, 3, 2]"
    by code_simp
  have "(\<forall>(n, atom) \<in> set (cgr_nodes cumulene).
          a_reagent atom = a_product atom \<and> (True \<longrightarrow> a_stereo atom = a_p_stereo atom))
       \<and> (\<forall>(n, m, bond) \<in> set (cgr_edges cumulene).
          b_reagent bond = b_product bond \<and> (True \<longrightarrow> b_stereo bond = b_p_stereo bond))"
    by (simp add: cumulene_def atom_of_def bond_of_def)
  then show ?thesis
    using C4_center_atoms [of True cumulene] c by auto
qed

text \<open>
  Claim C5. For a graph \<open>g\<close> (distinct node identifiers, edges that end in nodes, one edge
  between two nodes at most), decomposition returns the reagent molecule and the product
  molecule: each has the nodes of \<open>g\<close>, in the same order, a node carrying the view of its
  side, hence the same identifier set as \<open>g\<close>; and each has, with the bond view of its side,
  exactly the edges of \<open>g\<close> whose order on that side is set and not 0.
\<close>

theorem C5_decompose:
  assumes "is_graph g"
  shows "decompose dflt g =
     (\<lparr>mol_nodes = map (\<lambda>(n, atom). (n, a_reagent atom)) (cgr_nodes g),
       mol_edges = map (\<lambda>(n, m, bond). (n, m, b_reagent bond))
                     (filter (\<lambda>(n, m, bond). order_set (b_order bond)) (cgr_edges g))\<rparr>,
      \<lparr>mol_nodes = map (\<lambda>(n, atom). (n, a_product atom)) (cgr_nodes g),
       mol_edges = map (\<lambda>(n, m, bond). (n, m, b_product bond))
                     (filter (\<lambda>(n, m, bond). order_set (b_p_order bond)) (cgr_edges g))\<rparr>)
   \<and> keys (mol_nodes (fst (decompose dflt g))) = keys (cgr_nodes g)
   \<and> keys (mol_nodes (snd (decompose dflt g))) = keys (cgr_nodes g)
   \<and> set (mol_edges (fst (decompose dflt g)))
        = {(n, m, b_reagent bond) | n m bond k.
             (n, m, bond) \<in> set (cgr_edges g) \<and> b_order bond = Some k \<and> k \<noteq> 0}
   \<and> set (mol_edges (snd (decompose dflt g)))
        = {(n, m, b_product bond) | n m bond k.
             (n, m, bond) \<in> set (cgr_edges g) \<and> b_p_order bond = Some k \<and> k \<noteq> 0}"
proof -
  have d: "decompose dflt g =
     (\<lparr>mol_nodes = map (\<lambda>(n, atom). (n, a_reagent atom)) (cgr_nodes g),
       mol_edges = map (\<lambda>(n, m, bond). (n, m, b_reagent bond))
                     (filter (\<lambda>(n, m, bond). order_set (b_order bond)) (cgr_edges g))\<rparr>,
      \<lparr>mol_nodes = map (\<lambda>(n, atom). (n, a_product atom)) (cgr_nodes g),
       mol_edges = map (\<lambda>(n, m, bond). (n, m, b_product bond))
                     (filter (\<lambda>(n, m, bond). order_set (b_p_order bond)) (cgr_edges g))\<rparr>)"
    unfolding decompose_def Let_def
    by (simp only: decompose_side [OF assms])
  have k: "keys (map (\<lambda>(n, atom). (n, f atom)) (cgr_nodes g)) = keys (cgr_nodes g)"
    for f :: "'a dyn_atom \<Rightarrow> 'a"
    unfolding keys_def by (force simp: split_beta)
  have o: "order_set ord \<longleftrightarrow> (\<exists>k. ord = Some k \<and> k \<noteq> 0)" for ord
    by (cases ord) (simp_all add: order_set_def)
  have e: "set (map (\<lambda>(n, m, bond). (n, m, fb bond)) (filter (\<lambda>(n, m, bond). order_set (fo bond)) (cgr_edges g)))
        = {(n, m, fb bond) | n m bond k. (n, m, bond) \<in> set (cgr_edges g) \<and> fo bond = Some k \<and> k \<noteq> 0}"
    for fb :: "'b dyn_bond \<Rightarrow> 'b" and fo
    by (force simp: o split_beta image_iff)
  show ?thesis unfolding d fst_conv snd_conv mol.simps by (simp only: k e simp_thms)
qed

theorem C5_witness:
  "is_graph center_example
   \<and> decompose 0 center_example
       = (\<lparr>mol_nodes = [(1, 0), (2, 0), (3, 0), (4, 0)], mol_edges = [(1, 2, 1), (3, 4, 1)]\<rparr>,
          \<lparr>mol_nodes = [(1, 0), (2, 1), (3, 0), (4, 0)],
            mol_edges = [(1, 2, 1), (3, 4, 2), (2, 3, 1)]\<rparr>)"
proof -
  have g: "is_graph center_example"
    by (simp add: is_graph_def ends_ok_def simple_edges_def center_example_def keys_Cons keys_Nil)
  show ?thesis
    using C5_decompose [OF g, of 0] g
    by (simp add: center_example_def atom_of_def bond_of_def order_set_def)
qed





end
